theory Spec2Isabelle
  imports Main "HOL-Library.Word"
begin

section \<open>Data model\<close>

text \<open>
  Go's \<open>time.Duration\<close> is a signed 64-bit count of nanoseconds. It is a \<open>64 word\<close>
  here, compared as the source compares it (signed). \<open>time.Second\<close> is \<open>10^9\<close>.
\<close>

type_synonym Duration = "64 word"

definition Second :: Duration where
  "Second = 1000000000"

text \<open>
  \<open>ReceiveRequest\<close>. \<open>Reset\<close> is an \<open>int\<close> in the source (0 when not set,
  \<open>ResetEarliest\<close> = 1, \<open>ResetLatest\<close> = 2).
\<close>

record ReceiveRequest =
  SyncInterval :: Duration
  Organizations :: "string list"
  Sources :: "string list"
  Reset :: int
  ReconnectionDelay :: Duration
  PingTimeout :: Duration

definition reconnectionDelay :: "ReceiveRequest \<Rightarrow> Duration" where
  "reconnectionDelay r =
     (if 0 <s ReconnectionDelay r then ReconnectionDelay r else 5 * Second)"

definition pingTimeout :: "ReceiveRequest \<Rightarrow> Duration" where
  "pingTimeout r =
     (if 0 <s PingTimeout r then PingTimeout r else 90 * Second)"

section \<open>Envelopes and errors\<close>

text \<open>
  Go errors are kept by their message. \<open>io.EOF\<close> is the one sentinel the source compares
  against, so it has a constructor of its own; every other error (a JSON syntax error, a
  transport error, an error built by \<open>fmt.Errorf\<close>) is an \<open>ErrorString\<close>.
\<close>

datatype error = EOF | ErrorString string

fun Error :: "error \<Rightarrow> string" where
  "Error EOF = ''EOF''"
| "Error (ErrorString m) = m"

text \<open>\<open>fmt.Errorf(prefix + ": %v", err)\<close>.\<close>

definition Errorf :: "string \<Rightarrow> error \<Rightarrow> error" where
  "Errorf prefix err = ErrorString (prefix @ '': '' @ Error err)"

record Message =
  ImsOrg :: string
  MessageKey :: string
  Locations :: "string list"
  Source :: string
  Value :: string

record Envelope =
  Type :: string
  Partition :: int
  Key :: string
  Offset :: int
  Topic :: string
  CreateTime :: "64 word"
  Message :: Message
  SyncMarker :: string

text \<open>
  \<open>EnvelopeOrError\<close> holds a pointer and an interface value: each may be nil.
\<close>

record EnvelopeOrError =
  Envelope :: "Envelope option"
  Err :: "error option"

section \<open>The decoder\<close>

text \<open>
  \<open>json.Decoder\<close> belongs to Go's standard library. A decoder over a body is the list of
  the outcomes of its successive \<open>Decode\<close> calls: a decoded envelope or an error. When
  the list is used up the body has ended and \<open>Decode\<close> answers \<open>io.EOF\<close>.
\<close>

datatype decoded = Decoded Envelope | Failed error

type_synonym Decoder = "decoded list"

fun decodeEnvelope :: "Decoder \<Rightarrow> (Envelope option \<times> error option) \<times> Decoder" where
  "decodeEnvelope [] = ((None, Some EOF), [])"
| "decodeEnvelope (Decoded e # d) = ((Some e, None), d)"
| "decodeEnvelope (Failed err # d) = ((None, Some err), d)"

text \<open>
  One turn of the loop of \<open>decodeEnvelopes\<close>: the unit it offers on its channel, and the
  decoder afterwards. The loop has no exit of its own: it offers one unit per turn until
  its context is cancelled.
\<close>

definition decodeEnvelopes :: "Decoder \<Rightarrow> EnvelopeOrError \<times> Decoder" where
  "decodeEnvelopes d =
     (case decodeEnvelope d of
        ((envelope, err), d') \<Rightarrow> (\<lparr>Envelope = envelope, Err = err\<rparr>, d'))"

section \<open>The envelope stream\<close>

text \<open>
  The goroutine of \<open>envelopeStream\<close> is a loop around one \<open>select\<close>. Its state is the
  local variables of the goroutine, the decoder it feeds from, the wall clock, the units
  sent on \<open>out\<close> so far, and what the deferred calls have done once it has returned.

  Instants (\<open>time.Time\<close>) are integers, in nanoseconds; the zero \<open>time.Time\<close>, which is
  the initial value of \<open>deadline\<close>, is 0. \<open>deadlineCh\<close> holds the instant at which the
  channel made by \<open>time.After\<close> becomes ready.
\<close>

datatype status = Running | Returned | Panicked

record stream =
  envelope :: EnvelopeOrError
  envelopeReady :: bool
  deadline :: int
  deadlineCh :: int
  decoder :: Decoder
  now :: int
  out :: "EnvelopeOrError list"
  status :: status
  ctxCancelled :: bool
  outClosed :: bool
  bodyClosed :: bool

text \<open>
  The events that a turn of the loop can take: time passing, and the four cases of the
  \<open>select\<close>. \<open>Recv u\<close> is the receive of unit \<open>u\<close> from the decoder's channel,
  \<open>Send\<close> the caller taking the pending unit from \<open>out\<close>, \<open>Tick\<close> the receive from
  \<open>deadlineCh\<close>, \<open>Cancel\<close> the receive from \<open>ctx.Done()\<close>.
\<close>

datatype event = Elapse nat | Recv EnvelopeOrError | Send | Tick | Cancel

text \<open>\<open>time.Time.Sub\<close>: the difference, saturated to the range of a \<open>Duration\<close>.\<close>

definition Sub :: "int \<Rightarrow> int \<Rightarrow> int" where
  "Sub t u =
     (if t - u > 9223372036854775807 then 9223372036854775807
      else if t - u < - 9223372036854775808 then - 9223372036854775808
      else t - u)"

text \<open>
  A \<open>return\<close> of the goroutine runs its deferred calls: \<open>cancel()\<close>, \<open>close(out)\<close>,
  \<open>body.Close()\<close>. A panic runs them too.
\<close>

definition returned :: "stream \<Rightarrow> stream" where
  "returned s =
     s\<lparr>status := Returned, ctxCancelled := True, outClosed := True, bodyClosed := True\<rparr>"

definition panicked :: "stream \<Rightarrow> stream" where
  "panicked s =
     s\<lparr>status := Panicked, ctxCancelled := True, outClosed := True, bodyClosed := True\<rparr>"

text \<open>The state of the goroutine when it enters its loop, started at instant \<open>t0\<close>;
  \<open>timeout\<close> is the parameter \<open>pingTimeout\<close> of the source.\<close>

definition envelopeStream :: "int \<Rightarrow> Decoder \<Rightarrow> Duration \<Rightarrow> stream" where
  "envelopeStream t0 body timeout =
     \<lparr>envelope = \<lparr>Envelope = None, Err = None\<rparr>,
      envelopeReady = False,
      deadline = 0,
      deadlineCh = t0 + sint timeout,
      decoder = body,
      now = t0,
      out = [],
      status = Running,
      ctxCancelled = False,
      outClosed = False,
      bodyClosed = False\<rparr>"

text \<open>
  One event. \<open>None\<close> when the event cannot happen in this state: the goroutine has
  returned, the channel of the case is nil (\<open>outCh\<close> unless a unit is pending, \<open>inCh\<close>
  while one is), the timer has not fired yet, or the unit is not the one the decoder
  offers.
\<close>

fun select :: "Duration \<Rightarrow> stream \<Rightarrow> event \<Rightarrow> stream option" where
  "select timeout s (Elapse d) =
     (if status s \<noteq> Running then None else Some (s\<lparr>now := now s + int d\<rparr>))"
| "select timeout s Send =
     (if status s \<noteq> Running \<or> \<not> envelopeReady s then None
      else
        let s1 = s\<lparr>out := out s @ [envelope s], envelopeReady := False\<rparr> in
        if Err (envelope s) \<noteq> None then Some (returned s1)
        else case Envelope (envelope s) of
               None \<Rightarrow> Some (panicked s1)
             | Some e \<Rightarrow>
                 if Type e = ''END_OF_STREAM'' then Some (returned s1) else Some s1)"
| "select timeout s (Recv u) =
     (if status s \<noteq> Running \<or> envelopeReady s \<or> u \<noteq> fst (decodeEnvelopes (decoder s))
      then None
      else
        let s1 = s\<lparr>envelope := u, envelopeReady := True,
                   decoder := snd (decodeEnvelopes (decoder s))\<rparr> in
        if Err u = Some EOF then Some (returned s1)
        else case Envelope u of
               None \<Rightarrow> Some s1
             | Some e \<Rightarrow>
                 if Type e = ''PING''
                 then Some (s1\<lparr>deadline := now s + sint timeout\<rparr>)
                 else Some s1)"
| "select timeout s Tick =
     (if status s \<noteq> Running \<or> now s < deadlineCh s then None
      else if deadline s < now s then Some (returned s)
      else Some (s\<lparr>deadlineCh := now s + Sub (deadline s) (now s)\<rparr>))"
| "select timeout s Cancel =
     (if status s \<noteq> Running then None else Some (returned s))"

text \<open>The loop: a schedule of events, taken in order.\<close>

fun run :: "Duration \<Rightarrow> stream \<Rightarrow> event list \<Rightarrow> stream option" where
  "run timeout s [] = Some s"
| "run timeout s (ev # evs) =
     (case select timeout s ev of
        None \<Rightarrow> None
      | Some s' \<Rightarrow> run timeout s' evs)"

section \<open>The reconnecting supervisor\<close>

text \<open>
  The goroutine of \<open>reconnectStream\<close> calls the stream factory, forwards what the
  channel it got delivers, and starts over. The factory and its channel belong to the
  environment: what they do reaches the goroutine as signals. The source holds two
  variants of the function; both run on the same state.

  \<open>phase\<close> is the point of the code the goroutine waits at: in the call
  \<open>stream(ctx)\<close>; in the \<open>select\<close> that sends the error of the factory; in the
  \<open>select\<close> that receives from \<open>in\<close>; in the \<open>select\<close> that sends \<open>msg\<close>
  (a \<open>select\<close> of its own in the variant with the sub-context only); in the
  \<open>select\<close> on \<open>time.After(delay)\<close>, with the instant at which the timer fires;
  or returned, \<open>out\<close> closed.
\<close>

datatype phase = Calling | Failing error | Streaming | Sending | Delaying int | Stopped

text \<open>
  \<open>envelopeR\<close>, \<open>envelopeReadyR\<close>, \<open>openR\<close> and \<open>outR\<close> are the variables
  \<open>envelope\<close> (\<open>msg\<close> in the variant with the sub-context), \<open>envelopeReady\<close> and
  \<open>open\<close> of the goroutine and the units sent on its \<open>out\<close>. \<open>attempts\<close> lists
  the instants of the calls of the factory, the latest first; \<open>returns\<close> counts the
  returns of the function literal that makes one attempt, \<open>cancels\<close> the calls of
  \<open>streamCancel\<close>; \<open>ctxDone\<close> tells whether the caller has cancelled \<open>ctx\<close>.
\<close>

record supervisor =
  phase :: phase
  envelopeR :: EnvelopeOrError
  envelopeReadyR :: bool
  openR :: bool
  time :: int
  outR :: "EnvelopeOrError list"
  attempts :: "int list"
  returns :: nat
  cancels :: nat
  ctxDone :: bool

text \<open>
  The signals: time passing; the caller cancelling \<open>ctx\<close>; the factory returning an
  error, or a channel; the channel delivering a unit, or being closed; the caller taking
  the unit offered on \<open>out\<close>; the timer of \<open>time.After(delay)\<close> firing; the case
  \<open>ctx.Done()\<close> of a \<open>select\<close> being taken.
\<close>

datatype signal =
  Wait nat | CtxCancel | GotError error | GotStream | InUnit EnvelopeOrError | InClosed
  | OutTaken | Timer | Done

text \<open>The goroutine at its start, at instant \<open>t0\<close>: in its first call of the factory.\<close>

definition reconnectStream :: "int \<Rightarrow> supervisor" where
  "reconnectStream t0 =
     \<lparr>phase = Calling,
      envelopeR = \<lparr>Envelope = None, Err = None\<rparr>,
      envelopeReadyR = False,
      openR = True,
      time = t0,
      outR = [],
      attempts = [t0],
      returns = 0,
      cancels = 0,
      ctxDone = False\<rparr>"

text \<open>The next turn of the outer loop: the factory is called again.\<close>

definition connect :: "supervisor \<Rightarrow> supervisor" where
  "connect s = s\<lparr>phase := Calling, attempts := time s # attempts s\<rparr>"

subsection \<open>The variant that passes the parent context to the factory\<close>

text \<open>
  The function literal returns and the goroutine enters the \<open>select\<close> on
  \<open>time.After(delay)\<close> and \<open>ctx.Done()\<close>.
\<close>

definition leave :: "Duration \<Rightarrow> supervisor \<Rightarrow> supervisor" where
  "leave delay s =
     s\<lparr>returns := Suc (returns s), phase := Delaying (time s + sint delay)\<rparr>"

text \<open>The head of the inner loop: \<open>if !open && !envelopeReady { return }\<close>.\<close>

definition forward :: "Duration \<Rightarrow> supervisor \<Rightarrow> supervisor" where
  "forward delay s = (if \<not> openR s \<and> \<not> envelopeReadyR s then leave delay s else s)"

fun supervise :: "Duration \<Rightarrow> supervisor \<Rightarrow> signal \<Rightarrow> supervisor option" where
  "supervise delay s (Wait d) =
     (if phase s = Stopped then None else Some (s\<lparr>time := time s + int d\<rparr>))"
| "supervise delay s CtxCancel =
     (if phase s = Stopped then None else Some (s\<lparr>ctxDone := True\<rparr>))"
| "supervise delay s (GotError err) =
     (if phase s = Calling then Some (s\<lparr>phase := Failing err\<rparr>) else None)"
| "supervise delay s GotStream =
     (if phase s = Calling
      then Some (s\<lparr>phase := Streaming, envelopeR := \<lparr>Envelope = None, Err = None\<rparr>,
                   envelopeReadyR := False, openR := True\<rparr>)
      else None)"
| "supervise delay s (InUnit u) =
     (if phase s = Streaming \<and> \<not> envelopeReadyR s \<and> openR s
      then Some (forward delay (s\<lparr>envelopeR := u, openR := True, envelopeReadyR := True\<rparr>))
      else None)"
| "supervise delay s InClosed =
     (if phase s = Streaming \<and> \<not> envelopeReadyR s \<and> openR s
      then Some (forward delay (s\<lparr>envelopeR := \<lparr>Envelope = None, Err = None\<rparr>,
                                  openR := False, envelopeReadyR := False\<rparr>))
      else None)"
| "supervise delay s OutTaken =
     (case phase s of
        Failing err \<Rightarrow>
          Some (leave delay
                  (s\<lparr>outR := outR s @ [\<lparr>Envelope = None,
                                          Err = Some (Errorf ''get stream'' err)\<rparr>]\<rparr>))
      | Streaming \<Rightarrow>
          if envelopeReadyR s
          then Some (forward delay
                       (s\<lparr>outR := outR s @ [envelopeR s], envelopeReadyR := False\<rparr>))
          else None
      | _ \<Rightarrow> None)"
| "supervise delay s Timer =
     (case phase s of
        Delaying at \<Rightarrow> if at \<le> time s then Some (connect s) else None
      | _ \<Rightarrow> None)"
| "supervise delay s Done =
     (if \<not> ctxDone s then None
      else case phase s of
        Failing err \<Rightarrow> Some (leave delay s)
      | Streaming \<Rightarrow> Some (leave delay s)
      | Delaying at \<Rightarrow> Some (s\<lparr>phase := Stopped\<rparr>)
      | _ \<Rightarrow> None)"

subsection \<open>The variant that makes a sub-context for each attempt\<close>

text \<open>
  The function literal returns: its deferred \<open>streamCancel()\<close> runs. With \<open>stop\<close>
  true the goroutine returns, otherwise the outer loop takes its next turn.
\<close>

definition leaveSub :: "supervisor \<Rightarrow> supervisor" where
  "leaveSub s = s\<lparr>returns := Suc (returns s), cancels := Suc (cancels s)\<rparr>"

fun superviseSub :: "Duration \<Rightarrow> supervisor \<Rightarrow> signal \<Rightarrow> supervisor option" where
  "superviseSub delay s (Wait d) =
     (if phase s = Stopped then None else Some (s\<lparr>time := time s + int d\<rparr>))"
| "superviseSub delay s CtxCancel =
     (if phase s = Stopped then None else Some (s\<lparr>ctxDone := True\<rparr>))"
| "superviseSub delay s (GotError err) =
     (if phase s = Calling then Some (s\<lparr>phase := Failing err\<rparr>) else None)"
| "superviseSub delay s GotStream =
     (if phase s = Calling then Some (s\<lparr>phase := Streaming\<rparr>) else None)"
| "superviseSub delay s (InUnit u) =
     (if phase s = Streaming then Some (s\<lparr>envelopeR := u, phase := Sending\<rparr>) else None)"
| "superviseSub delay s InClosed =
     (if phase s = Streaming then Some (connect (leaveSub s)) else None)"
| "superviseSub delay s OutTaken =
     (case phase s of
        Failing err \<Rightarrow>
          Some (s\<lparr>outR := outR s @ [\<lparr>Envelope = None,
                                     Err = Some (Errorf ''get stream'' err)\<rparr>],
                  phase := Delaying (time s + sint delay)\<rparr>)
      | Sending \<Rightarrow> Some (s\<lparr>outR := outR s @ [envelopeR s], phase := Streaming\<rparr>)
      | _ \<Rightarrow> None)"
| "superviseSub delay s Timer =
     (case phase s of
        Delaying at \<Rightarrow> if at \<le> time s then Some (connect (leaveSub s)) else None
      | _ \<Rightarrow> None)"
| "superviseSub delay s Done =
     (if \<not> ctxDone s then None
      else case phase s of
        Failing err \<Rightarrow> Some ((leaveSub s)\<lparr>phase := Stopped\<rparr>)
      | Streaming \<Rightarrow> Some ((leaveSub s)\<lparr>phase := Stopped\<rparr>)
      | Sending \<Rightarrow> Some ((leaveSub s)\<lparr>phase := Stopped\<rparr>)
      | Delaying at \<Rightarrow> Some ((leaveSub s)\<lparr>phase := Stopped\<rparr>)
      | _ \<Rightarrow> None)"

text \<open>A schedule of signals, taken in order by either variant.\<close>

fun runWith ::
  "(supervisor \<Rightarrow> signal \<Rightarrow> supervisor option) \<Rightarrow> supervisor \<Rightarrow> signal list
     \<Rightarrow> supervisor option" where
  "runWith step s [] = Some s"
| "runWith step s (g # gs) =
     (case step s g of
        None \<Rightarrow> None
      | Some s' \<Rightarrow> runWith step s' gs)"

section \<open>Receive\<close>

text \<open>
  \<open>Receive\<close> wires the two together: its factory starts an envelope stream on the body
  of the response with \<open>r.pingTimeout()\<close>, and the supervisor runs with
  \<open>r.reconnectionDelay()\<close>.
\<close>

definition ReceiveStream :: "ReceiveRequest \<Rightarrow> int \<Rightarrow> Decoder \<Rightarrow> stream" where
  "ReceiveStream r t0 body = envelopeStream t0 body (pingTimeout r)"

definition Receive :: "ReceiveRequest \<Rightarrow> supervisor \<Rightarrow> signal \<Rightarrow> supervisor option" where
  "Receive r = supervise (reconnectionDelay r)"

text \<open>The request \<open>&ReceiveRequest{}\<close> of the tests: nothing specified.\<close>

definition emptyRequest :: ReceiveRequest where
  "emptyRequest =
     \<lparr>SyncInterval = 0, Organizations = [], Sources = [], Reset = 0,
      ReconnectionDelay = 0, PingTimeout = 0\<rparr>"

section \<open>The supervisor and its envelope streams together\<close>









section \<open>Vocabulary of the properties\<close>

text \<open>The envelope a test builds with \<open>&Envelope{Type: t}\<close>: every other field zero.\<close>

definition typed :: "string \<Rightarrow> Envelope" where
  "typed t =
     \<lparr>Type = t, Partition = 0, Key = [], Offset = 0, Topic = [], CreateTime = 0,
      Message = \<lparr>ImsOrg = [], MessageKey = [], Locations = [], Source = [], Value = []\<rparr>,
      SyncMarker = []\<rparr>"

definition envelopeUnit :: "Envelope \<Rightarrow> EnvelopeOrError" where
  "envelopeUnit e = \<lparr>Envelope = Some e, Err = None\<rparr>"

definition errorUnit :: "error \<Rightarrow> EnvelopeOrError" where
  "errorUnit err = \<lparr>Envelope = None, Err = Some err\<rparr>"

text \<open>The test \<open>msg.Envelope != nil && msg.Envelope.Type == "PING"\<close> of the source.\<close>

definition isPing :: "EnvelopeOrError \<Rightarrow> bool" where
  "isPing u = (case Envelope u of None \<Rightarrow> False | Some e \<Rightarrow> Type e = ''PING'')"

text \<open>Exactly one of the two fields of a unit is set.\<close>

definition exactlyOne :: "EnvelopeOrError \<Rightarrow> bool" where
  "exactlyOne u = ((Envelope u = None) \<noteq> (Err u = None))"

text \<open>A unit after whose delivery the envelope stream returns: an error or an
  \<open>END_OF_STREAM\<close> envelope.\<close>

definition terminal :: "EnvelopeOrError \<Rightarrow> bool" where
  "terminal u =
     (Err u \<noteq> None \<or>
      (case Envelope u of None \<Rightarrow> False | Some e \<Rightarrow> Type e = ''END_OF_STREAM''))"

fun pingEvent :: "event \<Rightarrow> bool" where
  "pingEvent (Recv u) = isPing u"
| "pingEvent _ = False"

text \<open>
  \<open>silence since evs\<close>: the time since the last \<open>PING\<close> was received (or since the
  start), after the schedule \<open>evs\<close>, when it was \<open>since\<close> before.
\<close>

fun silence :: "int \<Rightarrow> event list \<Rightarrow> int" where
  "silence since [] = since"
| "silence since (Elapse d # evs) = silence (since + int d) evs"
| "silence since (Recv u # evs) = silence (if isPing u then 0 else since) evs"
| "silence since (ev # evs) = silence since evs"

text \<open>
  \<open>paced T since evs\<close>: along the schedule, the time since the last \<open>PING\<close> was
  received (or since the start) never exceeds \<open>T / 2\<close>.
\<close>

fun paced :: "int \<Rightarrow> int \<Rightarrow> event list \<Rightarrow> bool" where
  "paced T since [] = True"
| "paced T since (Elapse d # evs) =
     (2 * (since + int d) \<le> T \<and> paced T (since + int d) evs)"
| "paced T since (Recv u # evs) = paced T (if isPing u then 0 else since) evs"
| "paced T since (ev # evs) = paced T since evs"

text \<open>
  \<open>steady evs\<close>: the schedule has no cancellation and the decoder delivers neither an
  error nor an \<open>END_OF_STREAM\<close> envelope.
\<close>

fun steady :: "event list \<Rightarrow> bool" where
  "steady [] = True"
| "steady (Recv u # evs) = (\<not> terminal u \<and> steady evs)"
| "steady (Cancel # evs) = False"
| "steady (ev # evs) = steady evs"

text \<open>A decoder and a schedule to run the loop on: a \<open>PING\<close> every 5 ns, timeout 10 ns.\<close>

definition feed :: Decoder where
  "feed = [Decoded (typed ''PING''), Decoded (typed ''PING''), Decoded (typed ''DATA''),
           Decoded (typed ''PING'')]"

definition pings :: "event list" where
  "pings =
     [Elapse 5, Recv (envelopeUnit (typed ''PING'')), Send,
      Elapse 5, Tick, Recv (envelopeUnit (typed ''PING'')), Send,
      Elapse 5, Tick, Recv (envelopeUnit (typed ''DATA'')), Send,
      Elapse 0, Recv (envelopeUnit (typed ''PING'')), Send, Elapse 5, Tick]"

text \<open>A body whose first token is malformed, and one that starts with
  \<open>END_OF_STREAM\<close>; each has a \<open>DATA\<close> envelope after it.\<close>

definition garbled :: Decoder where
  "garbled = [Failed (ErrorString ''invalid character''), Decoded (typed ''DATA'')]"

definition ending :: Decoder where
  "ending = [Decoded (typed ''END_OF_STREAM''), Decoded (typed ''DATA'')]"

text \<open>Schedules to run the supervisor on, with a delay of 5 ns.\<close>

definition retries :: "signal list" where
  "retries =
     [GotError (ErrorString ''nope''), OutTaken, Wait 5, Timer,
      GotError (ErrorString ''again''), OutTaken]"

definition epochs :: "signal list" where
  "epochs =
     [GotStream, InUnit (envelopeUnit (typed ''1'')), OutTaken, InClosed, Wait 5, Timer,
      GotError (ErrorString ''nope''), OutTaken]"

text \<open>Invariants of the loop, used in the proofs below.\<close>

definition keeps :: "int \<Rightarrow> int \<Rightarrow> stream \<Rightarrow> bool" where
  "keeps T since s =
     (status s = Running \<and> 2 * since \<le> T \<and>
      (envelopeReady s \<longrightarrow> exactlyOne (envelope s) \<and> \<not> terminal (envelope s)) \<and>
      (now s - since + T \<le> deadlineCh s \<or> deadline s = now s - since + T))"

definition armed :: "int \<Rightarrow> int \<Rightarrow> int \<Rightarrow> stream \<Rightarrow> bool" where
  "armed t0 T since s =
     (0 \<le> since \<and>
      (status s = Running \<longrightarrow>
        (deadline s = 0 \<and> deadlineCh s = t0 + T \<and> now s - since = t0) \<or>
        (deadline s = now s - since + T \<and> deadlineCh s \<le> deadline s \<and>
         t0 \<le> now s - since)))"

definition closing :: "EnvelopeOrError list \<Rightarrow> EnvelopeOrError \<Rightarrow> stream \<Rightarrow> bool" where
  "closing sent u s =
     ((status s = Running \<and> envelopeReady s \<and> envelope s = u \<and> out s = sent) \<or>
      (status s = Returned \<and> outClosed s \<and> bodyClosed s \<and>
       (out s = sent \<or> out s = sent @ [u])))"

text \<open>
  \<open>spaced d ts\<close>: in the list \<open>ts\<close> of instants, the latest first, each instant is
  at least \<open>d\<close> after the one before it.
\<close>

fun spaced :: "int \<Rightarrow> int list \<Rightarrow> bool" where
  "spaced d (u # t # ts) = (t + d \<le> u \<and> spaced d (t # ts))"
| "spaced d ts = True"

text \<open>\<open>wellFed gs\<close>: every unit the factory's channels deliver has exactly one field
  set.\<close>

fun wellFed :: "signal list \<Rightarrow> bool" where
  "wellFed [] = True"
| "wellFed (InUnit u # gs) = (exactlyOne u \<and> wellFed gs)"
| "wellFed (g # gs) = wellFed gs"

text \<open>Invariants of the supervisor and of the stream, used in the proofs below.\<close>

definition orderly :: "int \<Rightarrow> supervisor \<Rightarrow> bool" where
  "orderly d s =
     (attempts s \<noteq> [] \<and> spaced d (attempts s) \<and> hd (attempts s) \<le> time s \<and>
      (case phase s of Delaying at \<Rightarrow> hd (attempts s) + d \<le> at | _ \<Rightarrow> True))"

definition settling ::
  "error \<Rightarrow> int list \<Rightarrow> EnvelopeOrError list \<Rightarrow> EnvelopeOrError \<Rightarrow> supervisor \<Rightarrow> bool" where
  "settling err a sent u s =
     (length a < length (attempts s) \<or>
      attempts s = a \<and>
      (phase s = Failing err \<and> outR s = sent \<or>
       (case phase s of Delaying at \<Rightarrow> True | Stopped \<Rightarrow> True | _ \<Rightarrow> False) \<and>
       (outR s = sent \<or> outR s = sent @ [u])))"

definition sound :: "supervisor \<Rightarrow> bool" where
  "sound s =
     (list_all exactlyOne (outR s) \<and>
      (envelopeReadyR s \<or> phase s = Sending \<longrightarrow> exactlyOne (envelopeR s)))"

definition tidy :: "stream \<Rightarrow> bool" where
  "tidy s =
     (list_all exactlyOne (out s) \<and> status s \<noteq> Panicked \<and>
      (envelopeReady s \<longrightarrow> exactlyOne (envelope s)))"

text \<open>
  \<open>delayed delay gs\<close>: the schedule \<open>gs\<close> with a wait of \<open>delay\<close> and the firing of
  the timer put after every close of a channel of the factory.
\<close>

fun delayed :: "Duration \<Rightarrow> signal list \<Rightarrow> signal list" where
  "delayed delay [] = []"
| "delayed delay (InClosed # gs) =
     InClosed # Wait (nat (sint delay)) # Timer # delayed delay gs"
| "delayed delay (g # gs) = g # delayed delay gs"

text \<open>\<open>uncancelled gs\<close>: the caller does not cancel \<open>ctx\<close> in the schedule.\<close>

fun uncancelled :: "signal list \<Rightarrow> bool" where
  "uncancelled [] = True"
| "uncancelled (CtxCancel # gs) = False"
| "uncancelled (Done # gs) = False"
| "uncancelled (g # gs) = uncancelled gs"

text \<open>
  The states of the two variants that correspond: the same units sent, as many calls of
  the factory, the same point of the code, the same time left on the timer.
\<close>

definition matches :: "supervisor \<Rightarrow> supervisor \<Rightarrow> bool" where
  "matches so sn =
     (outR sn = outR so \<and> length (attempts sn) = length (attempts so) \<and>
      (case phase so of
         Calling \<Rightarrow> phase sn = Calling
       | Failing err \<Rightarrow> phase sn = Failing err
       | Streaming \<Rightarrow> phase sn = Streaming \<and> \<not> envelopeReadyR sn \<and> openR sn
       | Sending \<Rightarrow>
           phase sn = Streaming \<and> envelopeReadyR sn \<and> openR sn \<and> envelopeR sn = envelopeR so
       | Delaying at \<Rightarrow>
           (case phase sn of Delaying at' \<Rightarrow> at' - time sn = at - time so | _ \<Rightarrow> False)
       | Stopped \<Rightarrow> phase sn = Stopped))"

text \<open>The schedule \<open>epochs\<close> without its wait after the close of the channel.\<close>

definition epochsSub :: "signal list" where
  "epochsSub =
     [GotStream, InUnit (envelopeUnit (typed ''1'')), OutTaken, InClosed,
      GotError (ErrorString ''nope''), OutTaken]"

text \<open>\<open>inAttempt p\<close>: at point \<open>p\<close> the goroutine is inside the function literal that
  makes one attempt (in the variant that passes the parent context).\<close>

fun inAttempt :: "phase \<Rightarrow> bool" where
  "inAttempt Calling = True"
| "inAttempt (Failing err) = True"
| "inAttempt Streaming = True"
| "inAttempt Sending = True"
| "inAttempt (Delaying at) = False"
| "inAttempt Stopped = False"

text \<open>What the counters of the two variants satisfy.\<close>

definition counted :: "supervisor \<Rightarrow> bool" where
  "counted s =
     (cancels s = 0 \<and> (phase s = Streaming \<longrightarrow> openR s) \<and> phase s \<noteq> Sending \<and>
      length (attempts s) = returns s + (if inAttempt (phase s) then 1 else 0))"


text \<open>\<open>idle evs\<close>: no unit arrives from the decoder in the schedule.\<close>

fun idle :: "event list \<Rightarrow> bool" where
  "idle [] = True"
| "idle (Recv u # evs) = False"
| "idle (ev # evs) = idle evs"

text \<open>\<open>arrival ev\<close>: the event is the passing of time or the arrival of a unit, not a
  case the loop takes by itself.\<close>

fun arrival :: "event \<Rightarrow> bool" where
  "arrival (Recv u) = True"
| "arrival (Elapse d) = True"
| "arrival ev = False"

text \<open>A stream to which nothing has arrived.\<close>

definition quiet :: "stream \<Rightarrow> bool" where
  "quiet s =
     (out s = [] \<and> \<not> envelopeReady s \<and>
      (status s = Running \<or> status s = Returned \<and> outClosed s \<and> bodyClosed s))"


text \<open>A stream that has returned: its context cancelled, its \<open>out\<close> and its body
  closed. A stream is whole when it is running with \<open>out\<close> open, or has returned.\<close>

definition shut :: "stream \<Rightarrow> bool" where
  "shut st = (status st \<noteq> Running \<and> ctxCancelled st \<and> outClosed st \<and> bodyClosed st)"





section \<open>Properties\<close>

section \<open>The decoder and the loop: basic facts\<close>

text \<open>The definitions to unfold when a schedule is run on concrete data.\<close>

lemmas ev_defs = feed_def pings_def envelopeStream_def decodeEnvelopes_def envelopeUnit_def
  errorUnit_def typed_def Sub_def returned_def isPing_def terminal_def

lemmas sup_defs = reconnectStream_def retries_def epochs_def leave_def forward_def connect_def
  leaveSub_def errorUnit_def envelopeUnit_def Errorf_def typed_def

lemma decodeEnvelopes_exactlyOne: "exactlyOne (fst (decodeEnvelopes d))"
  by (cases d rule: decodeEnvelope.cases) (simp_all add: decodeEnvelopes_def exactlyOne_def)

lemma select_deadline:
  "select T s ev = Some s' \<Longrightarrow>
   deadline s' = (if pingEvent ev then now s + sint T else deadline s)"
  apply (cases ev)
  apply (auto simp: returned_def panicked_def Let_def isPing_def split: if_splits option.splits)
  using decodeEnvelopes_exactlyOne [of "decoder s"]
  apply (auto simp: exactlyOne_def)
  done

lemma returned_stuck: "status s \<noteq> Running \<Longrightarrow> select T s ev = None"
  by (cases ev) simp_all

lemma Sub_le: "u \<le> t \<Longrightarrow> u + Sub t u \<le> t"
  by (simp add: Sub_def)

lemma silence_Cons: "silence since (ev # evs) = silence (silence since [ev]) evs"
  by (cases ev) simp_all

subsection \<open>A stream that is pinged in time keeps running\<close>

lemma keeps_run:
  "0 < sint T \<Longrightarrow> keeps (sint T) since s \<Longrightarrow> paced (sint T) since evs \<Longrightarrow> steady evs \<Longrightarrow>
   run T s evs = Some s' \<Longrightarrow> status s' = Running"
proof (induction evs arbitrary: s since)
  case Nil
  then show ?case by (simp add: keeps_def)
next
  case (Cons ev evs)
  from Cons.prems(5) obtain s1
    where s1: "select T s ev = Some s1" and r: "run T s1 evs = Some s'"
    by (auto split: option.splits)
  show ?case
  proof (cases ev)
    case (Elapse d)
    with s1 Cons.prems have "keeps (sint T) (since + int d) s1"
      by (auto simp: keeps_def split: if_splits)
    with Cons Elapse r show ?thesis by auto
  next
    case (Recv u)
    with s1 Cons.prems have "keeps (sint T) (if isPing u then 0 else since) s1"
      using decodeEnvelopes_exactlyOne [of "decoder s"]
      by (auto simp: keeps_def Let_def isPing_def terminal_def returned_def exactlyOne_def
               split: if_splits option.splits)
    with Cons Recv r show ?thesis by auto
  next
    case Send
    with s1 Cons.prems have "keeps (sint T) since s1"
      by (auto simp: keeps_def Let_def terminal_def exactlyOne_def
               split: if_splits option.splits)
    with Cons Send r show ?thesis by auto
  next
    case Tick
    with s1 Cons.prems have "keeps (sint T) since s1"
      by (auto simp: keeps_def split: if_splits)
    with Cons Tick r show ?thesis by auto
  next
    case Cancel
    with Cons.prems show ?thesis by simp
  qed
qed

lemma keeps_init: "0 < sint T \<Longrightarrow> keeps (sint T) 0 (envelopeStream t0 body T)"
  by (simp add: keeps_def envelopeStream_def)

subsection \<open>The timer is due once the deadline has passed\<close>

lemma armed_select:
  assumes "0 < t0" "armed t0 (sint T) since s" "select T s ev = Some s'"
  shows "armed t0 (sint T) (silence since [ev]) s'"
proof (cases ev)
  case (Elapse d)
  with assms show ?thesis by (auto simp: armed_def split: if_splits)
next
  case (Recv u)
  with assms show ?thesis
    by (auto simp: armed_def Let_def isPing_def returned_def split: if_splits option.splits)
next
  case Send
  with assms show ?thesis
    by (auto simp: armed_def Let_def returned_def panicked_def split: if_splits option.splits)
next
  case Tick
  with assms show ?thesis
    using Sub_le [of "now s" "deadline s"]
    by (auto simp: armed_def returned_def split: if_splits)
next
  case Cancel
  with assms show ?thesis by (auto simp: armed_def returned_def split: if_splits)
qed

lemma armed_run:
  "0 < t0 \<Longrightarrow> armed t0 (sint T) since s \<Longrightarrow> run T s evs = Some s' \<Longrightarrow>
   armed t0 (sint T) (silence since evs) s'"
proof (induction evs arbitrary: s since)
  case Nil
  then show ?case by simp
next
  case (Cons ev evs)
  from Cons.prems(3) obtain s1
    where s1: "select T s ev = Some s1" and r: "run T s1 evs = Some s'"
    by (auto split: option.splits)
  from armed_select [OF Cons.prems(1,2) s1]
  have "armed t0 (sint T) (silence since [ev]) s1" .
  from Cons.IH [OF Cons.prems(1) this r] show ?case
    by (simp add: silence_Cons [of since ev evs])
qed

lemma armed_init: "armed t0 (sint T) 0 (envelopeStream t0 body T)"
  by (simp add: armed_def envelopeStream_def)

lemma timeout_fires:
  assumes "0 < t0" "run T (envelopeStream t0 body T) evs = Some s" "status s = Running"
    "sint T < silence 0 evs"
  shows "select T s Tick = Some (returned s)"
proof -
  from armed_run [OF assms(1) armed_init assms(2)]
  have "armed t0 (sint T) (silence 0 evs) s" .
  with assms show ?thesis by (auto simp: armed_def)
qed

subsection \<open>A pending terminal unit is the last one\<close>

lemma closing_select:
  "terminal u \<Longrightarrow> closing sent u s \<Longrightarrow> select T s ev = Some s' \<Longrightarrow> closing sent u s'"
  by (cases ev)
     (auto simp: closing_def terminal_def Let_def returned_def split: if_splits option.splits)

lemma closing_run:
  "terminal u \<Longrightarrow> closing sent u s \<Longrightarrow> run T s evs = Some s' \<Longrightarrow> closing sent u s'"
proof (induction evs arbitrary: s)
  case Nil
  then show ?case by simp
next
  case (Cons ev evs)
  then show ?case by (auto split: option.splits dest: closing_select)
qed

subsection \<open>Invariants of the supervisor\<close>

lemma orderly_supervise:
  "orderly (sint delay) s \<Longrightarrow> supervise delay s g = Some s' \<Longrightarrow> orderly (sint delay) s'"
  by (cases g)
     (auto simp: orderly_def leave_def forward_def connect_def neq_Nil_conv
           split: if_splits phase.splits)

lemma orderly_run:
  "orderly (sint delay) s \<Longrightarrow> runWith (supervise delay) s gs = Some s' \<Longrightarrow>
   orderly (sint delay) s'"
  by (induction gs arbitrary: s) (auto split: option.splits dest: orderly_supervise)

lemma orderly_init: "orderly d (reconnectStream t0)"
  by (simp add: orderly_def reconnectStream_def)

lemma attempts_grow:
  "supervise delay s g = Some s' \<Longrightarrow> length (attempts s) \<le> length (attempts s')"
  by (cases g)
     (auto simp: leave_def forward_def connect_def split: if_splits phase.splits)

lemma settling_supervise:
  "settling err a sent u s \<Longrightarrow> supervise delay s g = Some s' \<Longrightarrow>
   u = \<lparr>Envelope = None, Err = Some (Errorf ''get stream'' err)\<rparr> \<Longrightarrow>
   settling err a sent u s'"
  apply (cases g)
  apply (auto simp: settling_def leave_def forward_def connect_def
           split: if_splits phase.splits)
  done

lemma settling_run:
  "settling err a sent u s \<Longrightarrow> runWith (supervise delay) s gs = Some s' \<Longrightarrow>
   u = \<lparr>Envelope = None, Err = Some (Errorf ''get stream'' err)\<rparr> \<Longrightarrow>
   settling err a sent u s'"
  by (induction gs arbitrary: s) (auto split: option.splits dest: settling_supervise)

lemma sound_supervise:
  "sound s \<Longrightarrow> supervise delay s g = Some s' \<Longrightarrow> wellFed [g] \<Longrightarrow> sound s'"
  by (cases g)
     (auto simp: sound_def leave_def forward_def connect_def exactlyOne_def
           split: if_splits phase.splits)

lemma sound_superviseSub:
  "sound s \<Longrightarrow> superviseSub delay s g = Some s' \<Longrightarrow> wellFed [g] \<Longrightarrow> sound s'"
  by (cases g)
     (auto simp: sound_def leaveSub_def connect_def exactlyOne_def
           split: if_splits phase.splits)

lemma wellFed_Cons: "wellFed (g # gs) = (wellFed [g] \<and> wellFed gs)"
  by (cases g) simp_all

lemma sound_run:
  "sound s \<Longrightarrow> runWith (supervise delay) s gs = Some s' \<Longrightarrow> wellFed gs \<Longrightarrow> sound s'"
proof (induction gs arbitrary: s)
  case Nil
  then show ?case by simp
next
  case (Cons g gs)
  from Cons.prems(2) obtain s1 where s1: "supervise delay s g = Some s1"
    and r: "runWith (supervise delay) s1 gs = Some s'"
    by (auto split: option.splits)
  from Cons.prems(3) have w: "wellFed [g]" "wellFed gs"
    using wellFed_Cons [of g gs] by simp_all
  from sound_supervise [OF Cons.prems(1) s1 w(1)] have "sound s1" .
  from Cons.IH [OF this r w(2)] show ?case .
qed

lemma sound_runSub:
  "sound s \<Longrightarrow> runWith (superviseSub delay) s gs = Some s' \<Longrightarrow> wellFed gs \<Longrightarrow> sound s'"
proof (induction gs arbitrary: s)
  case Nil
  then show ?case by simp
next
  case (Cons g gs)
  from Cons.prems(2) obtain s1 where s1: "superviseSub delay s g = Some s1"
    and r: "runWith (superviseSub delay) s1 gs = Some s'"
    by (auto split: option.splits)
  from Cons.prems(3) have w: "wellFed [g]" "wellFed gs"
    using wellFed_Cons [of g gs] by simp_all
  from sound_superviseSub [OF Cons.prems(1) s1 w(1)] have "sound s1" .
  from Cons.IH [OF this r w(2)] show ?case .
qed

lemma sound_init: "sound (reconnectStream t0)"
  by (simp add: sound_def reconnectStream_def)

subsection \<open>Units sent by the envelope stream\<close>

lemma tidy_select: "tidy s \<Longrightarrow> select T s ev = Some s' \<Longrightarrow> tidy s'"
  using decodeEnvelopes_exactlyOne [of "decoder s"]
  by (cases ev)
     (auto simp: tidy_def Let_def returned_def panicked_def exactlyOne_def
           split: if_splits option.splits)

lemma tidy_run: "tidy s \<Longrightarrow> run T s evs = Some s' \<Longrightarrow> tidy s'"
  by (induction evs arbitrary: s) (auto split: option.splits dest: tidy_select)

lemma tidy_init: "tidy (envelopeStream t0 body T)"
  by (simp add: tidy_def envelopeStream_def)


subsection \<open>The two variants of the supervisor, step by step\<close>

lemma matches_step:
  assumes "matches so sn" "uncancelled [g]" "superviseSub delay so g = Some so'"
  shows "\<exists>sn'. runWith (supervise delay) sn (delayed delay [g]) = Some sn' \<and> matches so' sn'"
proof (cases g)
  case (Wait d)
  with assms show ?thesis
    by (auto simp: matches_def split: if_splits phase.splits)
next
  case CtxCancel
  with assms show ?thesis by simp
next
  case (GotError e)
  with assms show ?thesis
    by (auto simp: matches_def split: if_splits phase.splits)
next
  case GotStream
  with assms show ?thesis
    by (auto simp: matches_def split: if_splits phase.splits)
next
  case (InUnit u)
  with assms show ?thesis
    by (auto simp: matches_def forward_def split: if_splits phase.splits)
next
  case InClosed
  with assms show ?thesis
    by (auto simp: matches_def forward_def leave_def connect_def leaveSub_def
        split: if_splits phase.splits)
next
  case OutTaken
  with assms show ?thesis
    by (auto simp: matches_def forward_def leave_def split: if_splits phase.splits)
next
  case Timer
  with assms show ?thesis
    by (auto simp: matches_def connect_def leaveSub_def split: if_splits phase.splits)
next
  case Done
  with assms show ?thesis by simp
qed

lemma runWith_append:
  "runWith step s (gs @ hs) =
     (case runWith step s gs of None \<Rightarrow> None | Some s' \<Rightarrow> runWith step s' hs)"
  by (induction gs arbitrary: s) (auto split: option.splits)

lemma delayed_Cons: "delayed delay (g # gs) = delayed delay [g] @ delayed delay gs"
  by (cases g) simp_all

lemma uncancelled_Cons: "uncancelled (g # gs) = (uncancelled [g] \<and> uncancelled gs)"
  by (cases g) simp_all

lemma matches_run:
  "matches so sn \<Longrightarrow> uncancelled gs \<Longrightarrow> runWith (superviseSub delay) so gs = Some so' \<Longrightarrow>
   \<exists>sn'. runWith (supervise delay) sn (delayed delay gs) = Some sn' \<and> matches so' sn'"
proof (induction gs arbitrary: so sn)
  case Nil
  then show ?case by simp
next
  case (Cons g gs)
  from Cons.prems(3) obtain s1 where s1: "superviseSub delay so g = Some s1"
    and r: "runWith (superviseSub delay) s1 gs = Some so'"
    by (auto split: option.splits)
  from Cons.prems(2) have u: "uncancelled [g]" "uncancelled gs"
    using uncancelled_Cons [of g gs] by simp_all
  from matches_step [OF Cons.prems(1) u(1) s1] obtain n1
    where n1: "runWith (supervise delay) sn (delayed delay [g]) = Some n1" and m: "matches s1 n1"
    by blast
  from Cons.IH [OF m u(2) r] obtain sn'
    where "runWith (supervise delay) n1 (delayed delay gs) = Some sn'" "matches so' sn'"
    by blast
  with n1 show ?case
    by (simp add: delayed_Cons [of delay g gs] runWith_append)
qed

lemma matches_init: "matches (reconnectStream t0) (reconnectStream t0)"
  by (simp add: matches_def reconnectStream_def)


subsection \<open>Attempts, returns and cancellations\<close>

lemma counted_supervise: "counted s \<Longrightarrow> supervise delay s g = Some s' \<Longrightarrow> counted s'"
  by (cases g)
     (auto simp: counted_def leave_def forward_def connect_def split: if_splits phase.splits)

lemma counted_run:
  "counted s \<Longrightarrow> runWith (supervise delay) s gs = Some s' \<Longrightarrow> counted s'"
  by (induction gs arbitrary: s) (auto split: option.splits dest: counted_supervise)

lemma counted_init: "counted (reconnectStream t0)"
  by (simp add: counted_def reconnectStream_def)




subsection \<open>A stream to which nothing arrives\<close>

lemma quiet_select: "quiet s \<Longrightarrow> idle [ev] \<Longrightarrow> select T s ev = Some s' \<Longrightarrow> quiet s'"
  by (cases ev) (auto simp: quiet_def returned_def split: if_splits)

lemma idle_Cons: "idle (ev # evs) = (idle [ev] \<and> idle evs)"
  by (cases ev) simp_all

lemma quiet_run: "quiet s \<Longrightarrow> idle evs \<Longrightarrow> run T s evs = Some s' \<Longrightarrow> quiet s'"
proof (induction evs arbitrary: s)
  case Nil
  then show ?case by simp
next
  case (Cons ev evs)
  from Cons.prems(3) obtain s1
    where s1: "select T s ev = Some s1" and r: "run T s1 evs = Some s'"
    by (auto split: option.splits)
  from Cons.prems(2) have i: "idle [ev]" "idle evs" using idle_Cons [of ev evs] by simp_all
  from quiet_select [OF Cons.prems(1) i(1) s1] have "quiet s1" .
  from Cons.IH [OF this i(2) r] show ?case .
qed

lemma quiet_init: "quiet (envelopeStream t0 body T)"
  by (simp add: quiet_def envelopeStream_def)

lemma run_snoc:
  "run T s (evs @ [ev]) = (case run T s evs of None \<Rightarrow> None | Some s' \<Rightarrow> select T s' ev)"
  by (induction evs arbitrary: s) (auto split: option.splits)

subsection \<open>The supervisor and its streams together\<close>








lemma shut_nth: "list_all shut xs \<Longrightarrow> i < length xs \<Longrightarrow> shut (xs ! i)"
  by (simp add: list_all_length)















section \<open>The heartbeat deadline\<close>

text \<open>
  C1. Whatever the state and the timeout, an event of the loop sets the deadline to the
  current instant plus \<open>pingTimeout\<close> exactly when it is the receive of a
  \<open>PING\<close> envelope, and leaves it unchanged otherwise (a \<open>DATA\<close> or \<open>SYNC\<close>
  envelope, an error, a send, a tick, a cancellation). When the timer fires and the
  deadline has not passed, the loop keeps running and re-arms the timer for the time that
  remains until the deadline. Hence, with a positive timeout \<open>T\<close>, a stream that
  receives a \<open>PING\<close> at least every \<open>T / 2\<close> (and no terminal unit and no
  cancellation) is still running after any schedule.
\<close>

theorem ping_pushes_deadline:
  "(select T s ev = Some s' \<longrightarrow>
      deadline s' = (if pingEvent ev then now s + sint T else deadline s)) \<and>
   (status s = Running \<and> deadlineCh s \<le> now s \<and> \<not> deadline s < now s \<longrightarrow>
      select T s Tick = Some (s\<lparr>deadlineCh := now s + Sub (deadline s) (now s)\<rparr>)) \<and>
   (0 < sint T \<and> paced (sint T) 0 evs \<and> steady evs \<and>
    run T (envelopeStream t0 body T) evs = Some s'' \<longrightarrow> status s'' = Running)"
proof (intro conjI impI)
  assume "select T s ev = Some s'"
  then show "deadline s' = (if pingEvent ev then now s + sint T else deadline s)"
    by (rule select_deadline)
next
  assume "status s = Running \<and> deadlineCh s \<le> now s \<and> \<not> deadline s < now s"
  then show "select T s Tick = Some (s\<lparr>deadlineCh := now s + Sub (deadline s) (now s)\<rparr>)"
    by simp
next
  assume a: "0 < sint T \<and> paced (sint T) 0 evs \<and> steady evs \<and>
    run T (envelopeStream t0 body T) evs = Some s''"
  then have "keeps (sint T) 0 (envelopeStream t0 body T)" by (simp add: keeps_init)
  with a show "status s'' = Running" using keeps_run by blast
qed

theorem ping_pushes_deadline_witness:
  "select 10 (envelopeStream 100 feed 10) (Recv (envelopeUnit (typed ''PING''))) \<noteq> None \<and>
   deadline (the (select 10 (envelopeStream 100 feed 10) (Recv (envelopeUnit (typed ''PING'')))))
     = 110 \<and>
   deadline (the (select 10 (envelopeStream 100 [Decoded (typed ''DATA'')] 10)
                    (Recv (envelopeUnit (typed ''DATA''))))) = 0 \<and>
   status (the (run 10 (envelopeStream 100 feed 10) (take 4 pings))) = Running \<and>
   deadlineCh (the (run 10 (envelopeStream 100 feed 10) (take 4 pings)))
     \<le> now (the (run 10 (envelopeStream 100 feed 10) (take 4 pings))) \<and>
   \<not> deadline (the (run 10 (envelopeStream 100 feed 10) (take 4 pings)))
     < now (the (run 10 (envelopeStream 100 feed 10) (take 4 pings))) \<and>
   map_option deadlineCh
     (select 10 (the (run 10 (envelopeStream 100 feed 10) (take 4 pings))) Tick) = Some 115 \<and>
   0 < sint (10 :: Duration) \<and> paced (sint (10 :: Duration)) 0 pings \<and> steady pings \<and>
   run 10 (envelopeStream 100 feed 10) pings \<noteq> None \<and>
   status (the (run 10 (envelopeStream 100 feed 10) pings)) = Running"
proof -
  have a: "select 10 (envelopeStream 100 feed 10) (Recv (envelopeUnit (typed ''PING'')))
           = Some (the (select 10 (envelopeStream 100 feed 10) (Recv (envelopeUnit (typed ''PING'')))))"
    by (simp add: ev_defs)
  have b: "select 10 (envelopeStream 100 [Decoded (typed ''DATA'')] 10)
                    (Recv (envelopeUnit (typed ''DATA'')))
           = Some (the (select 10 (envelopeStream 100 [Decoded (typed ''DATA'')] 10)
                    (Recv (envelopeUnit (typed ''DATA'')))))"
    by (simp add: ev_defs)
  have c: "run 10 (envelopeStream 100 feed 10) (take 4 pings)
      = Some (envelopeStream 100 feed 10
          \<lparr>envelope := envelopeUnit (typed ''PING''), deadline := 115, now := 110,
            decoder := tl feed, out := [envelopeUnit (typed ''PING'')]\<rparr>)"
    by (simp add: ev_defs)
  have d: "0 < sint (10 :: Duration) \<and> paced (sint (10 :: Duration)) 0 pings \<and> steady pings \<and>
      run 10 (envelopeStream 100 feed 10) pings
        = Some (the (run 10 (envelopeStream 100 feed 10) pings))"
    by (simp add: ev_defs)
  from ping_pushes_deadline [of 10 "envelopeStream 100 feed 10"
      "Recv (envelopeUnit (typed ''PING''))"
      "the (select 10 (envelopeStream 100 feed 10) (Recv (envelopeUnit (typed ''PING''))))"] a
  have 1: "deadline (the (select 10 (envelopeStream 100 feed 10) (Recv (envelopeUnit (typed ''PING'')))))
     = 110"
    by (simp add: ev_defs)
  from ping_pushes_deadline [of 10 "envelopeStream 100 [Decoded (typed ''DATA'')] 10"
      "Recv (envelopeUnit (typed ''DATA''))"
      "the (select 10 (envelopeStream 100 [Decoded (typed ''DATA'')] 10) (Recv (envelopeUnit (typed ''DATA''))))"] b
  have 2: "deadline (the (select 10 (envelopeStream 100 [Decoded (typed ''DATA'')] 10)
                    (Recv (envelopeUnit (typed ''DATA''))))) = 0"
    by (simp add: ev_defs)
  from ping_pushes_deadline [of 10 "the (run 10 (envelopeStream 100 feed 10) (take 4 pings))"] c
  have 3: "map_option deadlineCh
     (select 10 (the (run 10 (envelopeStream 100 feed 10) (take 4 pings))) Tick) = Some 115"
    by (simp add: ev_defs)
  have "0 < sint (10 :: Duration) \<and> paced (sint (10 :: Duration)) 0 pings \<and> steady pings \<and>
      run 10 (envelopeStream 100 feed 10) pings
        = Some (the (run 10 (envelopeStream 100 feed 10) pings))
      \<longrightarrow> status (the (run 10 (envelopeStream 100 feed 10) pings)) = Running"
    using ping_pushes_deadline [of 10 "envelopeStream 100 feed 10" Tick
      "envelopeStream 100 feed 10" pings 100 feed
      "the (run 10 (envelopeStream 100 feed 10) pings)"]
    by (rule conjunct2 [THEN conjunct2])
  from this d have 4: "status (the (run 10 (envelopeStream 100 feed 10) pings)) = Running"
    by (rule mp)
  have e: "run 10 (envelopeStream 100 feed 10) pings \<noteq> None" by (simp add: ev_defs)
  have a0: "select 10 (envelopeStream 100 feed 10) (Recv (envelopeUnit (typed ''PING''))) \<noteq> None"
    by (simp add: ev_defs)
  have c': "status (the (run 10 (envelopeStream 100 feed 10) (take 4 pings))) = Running \<and>
   deadlineCh (the (run 10 (envelopeStream 100 feed 10) (take 4 pings)))
     \<le> now (the (run 10 (envelopeStream 100 feed 10) (take 4 pings))) \<and>
   \<not> deadline (the (run 10 (envelopeStream 100 feed 10) (take 4 pings)))
     < now (the (run 10 (envelopeStream 100 feed 10) (take 4 pings)))"
    by (simp add: ev_defs)
  from a0 1 2 c' 3 d e 4 show ?thesis by blast
qed

text \<open>
  C2, as stated, fails: the \<open>select\<close> gives the timer no priority. With a timeout of
  10 ns, let 11 ns pass with no unit at all. If the decoder then delivers a \<open>PING\<close>
  and the loop takes that case first, the deadline is pushed forward, the tick that
  follows re-arms the timer, and the stream is still running, having forwarded the
  \<open>PING\<close>. If the decoder delivers an error instead and the caller takes it, the
  stream ends with that error unit sent, not silently.
\<close>

theorem deadline_passed_stream_goes_on:
  "sint (10 :: Duration) < silence 0 [Elapse 11] \<and>
   map_option status (run 10 (envelopeStream 100 feed 10)
     [Elapse 11, Recv (envelopeUnit (typed ''PING'')), Send, Tick]) = Some Running \<and>
   map_option out (run 10 (envelopeStream 100 feed 10)
     [Elapse 11, Recv (envelopeUnit (typed ''PING'')), Send, Tick])
     = Some [envelopeUnit (typed ''PING'')] \<and>
   map_option status (run 10 (envelopeStream 100 garbled 10)
     [Elapse 11, Recv (errorUnit (ErrorString ''invalid character'')), Send]) = Some Returned \<and>
   map_option out (run 10 (envelopeStream 100 garbled 10)
     [Elapse 11, Recv (errorUnit (ErrorString ''invalid character'')), Send])
     = Some [errorUnit (ErrorString ''invalid character'')]"
  by (simp add: ev_defs garbled_def)

text \<open>
  C2, amended. Started after the zero instant, whenever the stream is running and more
  than \<open>pingTimeout\<close> has elapsed since a \<open>PING\<close> was last received (or since the
  start, when none was), the timer case of the \<open>select\<close> is ready, and the schedule
  continued by it ends with the goroutine returned silently: nothing more is sent,
  \<open>out\<close> is closed and the body is closed. When no unit has arrived at all, nothing
  has been sent, no send can happen, and a stream that has ended has ended silently;
  and once more than \<open>pingTimeout\<close> has elapsed, every case the loop can take by
  itself (the timer, cancellation) makes it return silently, with \<open>out\<close> and the
  body closed. (The loop gives the timer no priority over a unit that arrives.)
\<close>

theorem timer_taken_terminates_silently:
  "(0 < t0 \<and> run T (envelopeStream t0 body T) evs = Some s \<and> status s = Running \<and>
    sint T < silence 0 evs \<longrightarrow>
      run T (envelopeStream t0 body T) (evs @ [Tick]) = Some (returned s) \<and>
      status (returned s) = Returned \<and> out (returned s) = out s \<and>
      outClosed (returned s) \<and> bodyClosed (returned s)) \<and>
   (idle evs \<and> run T (envelopeStream t0 body T) evs = Some s \<longrightarrow>
      out s = [] \<and> select T s Send = None \<and>
      (status s \<noteq> Running \<longrightarrow> status s = Returned \<and> outClosed s \<and> bodyClosed s)) \<and>
   (0 < t0 \<and> idle evs \<and> run T (envelopeStream t0 body T) evs = Some s \<and>
    status s = Running \<and> sint T < silence 0 evs \<longrightarrow>
      (\<forall>ev s'. \<not> arrival ev \<and> select T s ev = Some s' \<longrightarrow>
         s' = returned s \<and> status s' = Returned \<and> out s' = [] \<and>
         outClosed s' \<and> bodyClosed s'))"
proof (intro conjI impI allI)
  assume a: "0 < t0 \<and> run T (envelopeStream t0 body T) evs = Some s \<and> status s = Running \<and>
    sint T < silence 0 evs"
  with timeout_fires [of t0 T body evs s]
  show "run T (envelopeStream t0 body T) (evs @ [Tick]) = Some (returned s)"
    by (simp add: run_snoc)
  show "status (returned s) = Returned" "out (returned s) = out s"
    "outClosed (returned s)" "bodyClosed (returned s)"
    by (simp_all add: returned_def)
next
  assume a: "idle evs \<and> run T (envelopeStream t0 body T) evs = Some s"
  then have "run T (envelopeStream t0 body T) evs = Some s" "idle evs" by simp_all
  from quiet_run [OF quiet_init this(2,1)] have q: "quiet s" .
  then show "out s = []" by (simp add: quiet_def)
  from q show "select T s Send = None" by (simp add: quiet_def)
  {
    assume "status s \<noteq> Running"
    with q show "status s = Returned" "outClosed s" "bodyClosed s"
      by (auto simp: quiet_def)
  }
next
  fix ev s'
  assume a: "0 < t0 \<and> idle evs \<and> run T (envelopeStream t0 body T) evs = Some s \<and>
    status s = Running \<and> sint T < silence 0 evs"
  assume b: "\<not> arrival ev \<and> select T s ev = Some s'"
  from a have r: "run T (envelopeStream t0 body T) evs = Some s" and i: "idle evs" by simp_all
  from quiet_run [OF quiet_init i r] have q: "quiet s" .
  from a timeout_fires [of t0 T body evs s] have t: "select T s Tick = Some (returned s)"
    by simp
  from b q t have e: "s' = returned s"
    by (cases ev) (auto simp: quiet_def split: if_splits)
  then show "s' = returned s" .
  from e q show "status s' = Returned" "out s' = []" "outClosed s'" "bodyClosed s'"
    by (simp_all add: returned_def quiet_def)
qed

theorem timer_taken_terminates_silently_witness:
  "(0::int) < 100 \<and>
   run 10 (envelopeStream 100 feed 10)
       [Elapse 5, Recv (envelopeUnit (typed ''PING'')), Send, Elapse 11]
     = Some (envelopeStream 100 feed 10
          \<lparr>envelope := envelopeUnit (typed ''PING''), deadline := 115, now := 116,
            decoder := tl feed, out := [envelopeUnit (typed ''PING'')]\<rparr>) \<and>
   sint (10 :: Duration)
     < silence 0 [Elapse 5, Recv (envelopeUnit (typed ''PING'')), Send, Elapse 11] \<and>
   map_option out (run 10 (envelopeStream 100 feed 10)
       ([Elapse 5, Recv (envelopeUnit (typed ''PING'')), Send, Elapse 11] @ [Tick]))
     = Some [envelopeUnit (typed ''PING'')] \<and>
   map_option status (run 10 (envelopeStream 100 feed 10)
       ([Elapse 5, Recv (envelopeUnit (typed ''PING'')), Send, Elapse 11] @ [Tick]))
     = Some Returned \<and>
   idle [Elapse 11] \<and>
   run 10 (envelopeStream 100 [] 10) [Elapse 11] = Some (envelopeStream 100 [] 10 \<lparr>now := 111\<rparr>) \<and>
   \<not> arrival Tick \<and>
   select 10 (envelopeStream 100 [] 10 \<lparr>now := 111\<rparr>) Tick
     = Some (returned (envelopeStream 100 [] 10 \<lparr>now := 111\<rparr>)) \<and>
   out (returned (envelopeStream 100 [] 10 \<lparr>now := 111\<rparr>)) = [] \<and>
   bodyClosed (returned (envelopeStream 100 [] 10 \<lparr>now := 111\<rparr>))"
proof -
  let ?s = "envelopeStream 100 feed 10
          \<lparr>envelope := envelopeUnit (typed ''PING''), deadline := 115, now := 116,
            decoder := tl feed, out := [envelopeUnit (typed ''PING'')]\<rparr>"
  let ?evs = "[Elapse 5, Recv (envelopeUnit (typed ''PING'')), Send, Elapse 11]"
  let ?q = "envelopeStream 100 [] 10 \<lparr>now := 111\<rparr>"
  have a: "(0::int) < 100 \<and> run 10 (envelopeStream 100 feed 10) ?evs = Some ?s \<and>
     status ?s = Running \<and> sint (10 :: Duration) < silence 0 ?evs"
    by (simp add: ev_defs)
  have b: "(0::int) < 100 \<and> idle [Elapse 11] \<and>
      run 10 (envelopeStream 100 [] 10) [Elapse 11] = Some ?q \<and>
      status ?q = Running \<and> sint (10 :: Duration) < silence 0 [Elapse 11]"
    by (simp add: ev_defs)
  have c: "\<not> arrival Tick \<and> select 10 ?q Tick = Some (returned ?q)"
    by (simp add: ev_defs)
  note t = timer_taken_terminates_silently [of 100 10 feed ?evs ?s]
  note u = timer_taken_terminates_silently [of 100 10 "[]" "[Elapse 11]" ?q]
  from t a have 1: "run 10 (envelopeStream 100 feed 10) (?evs @ [Tick]) = Some (returned ?s) \<and>
      status (returned ?s) = Returned \<and> out (returned ?s) = out ?s"
    by blast
  from u b c have 2: "status (returned ?q) = Returned \<and> out (returned ?q) = [] \<and>
      outClosed (returned ?q) \<and> bodyClosed (returned ?q)"
    by blast
  from 1 have 3: "map_option out (run 10 (envelopeStream 100 feed 10) (?evs @ [Tick]))
     = Some [envelopeUnit (typed ''PING'')] \<and>
     map_option status (run 10 (envelopeStream 100 feed 10) (?evs @ [Tick])) = Some Returned"
    by (simp add: envelopeStream_def)
  from a b c 2 3 show ?thesis by blast
qed

section \<open>Terminal units\<close>

text \<open>
  C3. Let the stream be running with no unit pending and let the next \<open>Decode\<close> fail
  with \<open>err\<close>. When \<open>err\<close> is not \<open>io.EOF\<close>: once the unit
  \<open>{Envelope: nil, Err: err}\<close> is received and the caller takes it, exactly that unit
  has been added to \<open>out\<close> and the goroutine has returned, closing \<open>out\<close> and the
  body; and on every schedule that continues after the receive, the units sent are none
  or that single one, after which no event happens any more (the decoder is not asked
  again, nothing follows the error unit). When \<open>err\<close> is \<open>io.EOF\<close> the receive
  itself makes the goroutine return, with nothing sent.
\<close>

theorem decode_error_ends_stream:
  "status s = Running \<and> \<not> envelopeReady s \<and>
   decodeEnvelope (decoder s) = ((None, Some err), d) \<longrightarrow>
   (err \<noteq> EOF \<longrightarrow>
      run T s [Recv (errorUnit err), Send] =
        Some (returned (s\<lparr>envelope := errorUnit err, envelopeReady := False, decoder := d,
                            out := out s @ [errorUnit err]\<rparr>)) \<and>
      (\<forall>evs s'. run T s (Recv (errorUnit err) # evs) = Some s' \<longrightarrow>
         out s' = out s \<or>
         out s' = out s @ [errorUnit err] \<and> status s' = Returned \<and>
         outClosed s' \<and> bodyClosed s' \<and> (\<forall>ev. select T s' ev = None))) \<and>
   (err = EOF \<longrightarrow>
      select T s (Recv (errorUnit EOF)) =
        Some (returned (s\<lparr>envelope := errorUnit EOF, envelopeReady := True, decoder := d\<rparr>)))"
proof (intro impI conjI allI)
  assume a: "status s = Running \<and> \<not> envelopeReady s \<and>
    decodeEnvelope (decoder s) = ((None, Some err), d)"
  assume "err \<noteq> EOF"
  with a show "run T s [Recv (errorUnit err), Send] =
        Some (returned (s\<lparr>envelope := errorUnit err, envelopeReady := False, decoder := d,
                            out := out s @ [errorUnit err]\<rparr>))"
    by (simp add: decodeEnvelopes_def errorUnit_def returned_def)
next
  fix evs s'
  assume a: "status s = Running \<and> \<not> envelopeReady s \<and>
    decodeEnvelope (decoder s) = ((None, Some err), d)"
  assume ne: "err \<noteq> EOF" and r: "run T s (Recv (errorUnit err) # evs) = Some s'"
  let ?s1 = "s\<lparr>envelope := errorUnit err, envelopeReady := True, decoder := d\<rparr>"
  from a ne have s1: "select T s (Recv (errorUnit err)) = Some ?s1"
    by (simp add: decodeEnvelopes_def errorUnit_def)
  with r have r1: "run T ?s1 evs = Some s'" by simp
  have t: "terminal (errorUnit err)" by (simp add: terminal_def errorUnit_def)
  from a have "closing (out s) (errorUnit err) ?s1" by (simp add: closing_def)
  from closing_run [OF t this r1] have c: "closing (out s) (errorUnit err) s'" .
  show "out s' = out s \<or>
         out s' = out s @ [errorUnit err] \<and> status s' = Returned \<and>
         outClosed s' \<and> bodyClosed s' \<and> (\<forall>ev. select T s' ev = None)"
  proof (cases "out s' = out s")
    case True
    then show ?thesis by simp
  next
    case False
    with c have "out s' = out s @ [errorUnit err] \<and> status s' = Returned \<and>
         outClosed s' \<and> bodyClosed s'"
      by (auto simp: closing_def)
    moreover from this have "\<forall>ev. select T s' ev = None" by (simp add: returned_stuck)
    ultimately show ?thesis by simp
  qed
next
  assume a: "status s = Running \<and> \<not> envelopeReady s \<and>
    decodeEnvelope (decoder s) = ((None, Some err), d)"
  assume "err = EOF"
  with a show "select T s (Recv (errorUnit EOF)) =
        Some (returned (s\<lparr>envelope := errorUnit EOF, envelopeReady := True, decoder := d\<rparr>))"
    by (simp add: decodeEnvelopes_def errorUnit_def)
qed

theorem decode_error_ends_stream_witness:
  "status (envelopeStream 100 garbled 10) = Running \<and>
   \<not> envelopeReady (envelopeStream 100 garbled 10) \<and>
   decodeEnvelope (decoder (envelopeStream 100 garbled 10))
     = ((None, Some (ErrorString ''invalid character'')), [Decoded (typed ''DATA'')]) \<and>
   ErrorString ''invalid character'' \<noteq> EOF \<and>
   map_option out (run 10 (envelopeStream 100 garbled 10)
       [Recv (errorUnit (ErrorString ''invalid character'')), Send])
     = Some [errorUnit (ErrorString ''invalid character'')] \<and>
   map_option status (run 10 (envelopeStream 100 garbled 10)
       [Recv (errorUnit (ErrorString ''invalid character'')), Send]) = Some Returned \<and>
   run 10 (envelopeStream 100 garbled 10)
       [Recv (errorUnit (ErrorString ''invalid character'')), Send, Recv (envelopeUnit (typed ''DATA''))]
     = None \<and>
   decodeEnvelope (decoder (envelopeStream 100 [] 10)) = ((None, Some EOF), []) \<and>
   map_option out (select 10 (envelopeStream 100 [] 10) (Recv (errorUnit EOF))) = Some [] \<and>
   map_option outClosed (select 10 (envelopeStream 100 [] 10) (Recv (errorUnit EOF))) = Some True"
proof -
  have h: "status (envelopeStream 100 garbled 10) = Running \<and>
   \<not> envelopeReady (envelopeStream 100 garbled 10) \<and>
   decodeEnvelope (decoder (envelopeStream 100 garbled 10))
     = ((None, Some (ErrorString ''invalid character'')), [Decoded (typed ''DATA'')])"
    by (simp add: envelopeStream_def garbled_def)
  have n: "ErrorString ''invalid character'' \<noteq> EOF" by simp
  have h0: "status (envelopeStream 100 [] 10) = Running \<and>
   \<not> envelopeReady (envelopeStream 100 [] 10) \<and>
   decodeEnvelope (decoder (envelopeStream 100 [] 10)) = ((None, Some EOF), [])"
    by (simp add: envelopeStream_def)
  note t = decode_error_ends_stream [of "envelopeStream 100 garbled 10"
      "ErrorString ''invalid character''" "[Decoded (typed ''DATA'')]" 10]
  note t0 = decode_error_ends_stream [of "envelopeStream 100 [] 10" EOF "[]" 10]
  from t h n have 1: "run 10 (envelopeStream 100 garbled 10)
       [Recv (errorUnit (ErrorString ''invalid character'')), Send] =
        Some (returned (envelopeStream 100 garbled 10
           \<lparr>envelope := errorUnit (ErrorString ''invalid character''), envelopeReady := False,
             decoder := [Decoded (typed ''DATA'')],
             out := out (envelopeStream 100 garbled 10)
                      @ [errorUnit (ErrorString ''invalid character'')]\<rparr>))"
    by blast
  from t0 h0 have 2: "select 10 (envelopeStream 100 [] 10) (Recv (errorUnit EOF)) =
        Some (returned (envelopeStream 100 [] 10
          \<lparr>envelope := errorUnit EOF, envelopeReady := True, decoder := []\<rparr>))"
    by blast
  have 3: "run 10 (envelopeStream 100 garbled 10)
       [Recv (errorUnit (ErrorString ''invalid character'')), Send, Recv (envelopeUnit (typed ''DATA''))]
     = None"
    by (simp add: envelopeStream_def garbled_def decodeEnvelopes_def errorUnit_def returned_def)
  from 1 have 4: "map_option out (run 10 (envelopeStream 100 garbled 10)
       [Recv (errorUnit (ErrorString ''invalid character'')), Send])
     = Some [errorUnit (ErrorString ''invalid character'')] \<and>
   map_option status (run 10 (envelopeStream 100 garbled 10)
       [Recv (errorUnit (ErrorString ''invalid character'')), Send]) = Some Returned"
    by (simp add: returned_def envelopeStream_def)
  from 2 have 5: "map_option out (select 10 (envelopeStream 100 [] 10) (Recv (errorUnit EOF))) = Some [] \<and>
   map_option outClosed (select 10 (envelopeStream 100 [] 10) (Recv (errorUnit EOF))) = Some True"
    by (simp add: returned_def envelopeStream_def)
  from h n h0 3 4 5 show ?thesis by blast
qed

text \<open>
  C5. Let the stream be running with no unit pending and let the next \<open>Decode\<close> yield
  an envelope of type \<open>END_OF_STREAM\<close>, whatever the decoder could still yield after
  it. Once the envelope is received and the caller takes it, exactly that envelope has
  been added to \<open>out\<close> and the goroutine has returned, closing \<open>out\<close> and the body;
  on every schedule that continues after the receive, the units sent are none or that
  single one, after which no event happens any more.
\<close>

theorem end_of_stream_ends_stream:
  "status s = Running \<and> \<not> envelopeReady s \<and>
   decodeEnvelope (decoder s) = ((Some e, None), d) \<and> Type e = ''END_OF_STREAM'' \<longrightarrow>
   run T s [Recv (envelopeUnit e), Send] =
     Some (returned (s\<lparr>envelope := envelopeUnit e, envelopeReady := False, decoder := d,
                         out := out s @ [envelopeUnit e]\<rparr>)) \<and>
   (\<forall>evs s'. run T s (Recv (envelopeUnit e) # evs) = Some s' \<longrightarrow>
      out s' = out s \<or>
      out s' = out s @ [envelopeUnit e] \<and> status s' = Returned \<and>
      outClosed s' \<and> bodyClosed s' \<and> (\<forall>ev. select T s' ev = None))"
proof (intro impI conjI allI)
  assume a: "status s = Running \<and> \<not> envelopeReady s \<and>
   decodeEnvelope (decoder s) = ((Some e, None), d) \<and> Type e = ''END_OF_STREAM''"
  then show "run T s [Recv (envelopeUnit e), Send] =
     Some (returned (s\<lparr>envelope := envelopeUnit e, envelopeReady := False, decoder := d,
                         out := out s @ [envelopeUnit e]\<rparr>))"
    by (simp add: decodeEnvelopes_def envelopeUnit_def returned_def)
next
  fix evs s'
  assume a: "status s = Running \<and> \<not> envelopeReady s \<and>
   decodeEnvelope (decoder s) = ((Some e, None), d) \<and> Type e = ''END_OF_STREAM''"
  assume r: "run T s (Recv (envelopeUnit e) # evs) = Some s'"
  let ?s1 = "s\<lparr>envelope := envelopeUnit e, envelopeReady := True, decoder := d\<rparr>"
  from a have s1: "select T s (Recv (envelopeUnit e)) = Some ?s1"
    by (simp add: decodeEnvelopes_def envelopeUnit_def)
  with r have r1: "run T ?s1 evs = Some s'" by simp
  from a have t: "terminal (envelopeUnit e)" by (simp add: terminal_def envelopeUnit_def)
  from a have "closing (out s) (envelopeUnit e) ?s1" by (simp add: closing_def)
  from closing_run [OF t this r1] have c: "closing (out s) (envelopeUnit e) s'" .
  show "out s' = out s \<or>
      out s' = out s @ [envelopeUnit e] \<and> status s' = Returned \<and>
      outClosed s' \<and> bodyClosed s' \<and> (\<forall>ev. select T s' ev = None)"
  proof (cases "out s' = out s")
    case True
    then show ?thesis by simp
  next
    case False
    with c have "out s' = out s @ [envelopeUnit e] \<and> status s' = Returned \<and>
         outClosed s' \<and> bodyClosed s'"
      by (auto simp: closing_def)
    moreover from this have "\<forall>ev. select T s' ev = None" by (simp add: returned_stuck)
    ultimately show ?thesis by simp
  qed
qed

theorem end_of_stream_ends_stream_witness:
  "status (envelopeStream 100 ending 10) = Running \<and>
   \<not> envelopeReady (envelopeStream 100 ending 10) \<and>
   decodeEnvelope (decoder (envelopeStream 100 ending 10))
     = ((Some (typed ''END_OF_STREAM''), None), [Decoded (typed ''DATA'')]) \<and>
   Type (typed ''END_OF_STREAM'') = ''END_OF_STREAM'' \<and>
   map_option out (run 10 (envelopeStream 100 ending 10)
       [Recv (envelopeUnit (typed ''END_OF_STREAM'')), Send])
     = Some [envelopeUnit (typed ''END_OF_STREAM'')] \<and>
   map_option status (run 10 (envelopeStream 100 ending 10)
       [Recv (envelopeUnit (typed ''END_OF_STREAM'')), Send]) = Some Returned \<and>
   map_option decoder (run 10 (envelopeStream 100 ending 10)
       [Recv (envelopeUnit (typed ''END_OF_STREAM'')), Send]) = Some [Decoded (typed ''DATA'')] \<and>
   map_option bodyClosed (run 10 (envelopeStream 100 ending 10)
       [Recv (envelopeUnit (typed ''END_OF_STREAM'')), Send]) = Some True"
proof -
  have h: "status (envelopeStream 100 ending 10) = Running \<and>
   \<not> envelopeReady (envelopeStream 100 ending 10) \<and>
   decodeEnvelope (decoder (envelopeStream 100 ending 10))
     = ((Some (typed ''END_OF_STREAM''), None), [Decoded (typed ''DATA'')]) \<and>
   Type (typed ''END_OF_STREAM'') = ''END_OF_STREAM''"
    by (simp add: envelopeStream_def ending_def typed_def)
  from end_of_stream_ends_stream [of "envelopeStream 100 ending 10" "typed ''END_OF_STREAM''"
      "[Decoded (typed ''DATA'')]" 10] h
  have 1: "run 10 (envelopeStream 100 ending 10)
       [Recv (envelopeUnit (typed ''END_OF_STREAM'')), Send] =
     Some (returned (envelopeStream 100 ending 10
        \<lparr>envelope := envelopeUnit (typed ''END_OF_STREAM''), envelopeReady := False,
          decoder := [Decoded (typed ''DATA'')],
          out := out (envelopeStream 100 ending 10) @ [envelopeUnit (typed ''END_OF_STREAM'')]\<rparr>))"
    by blast
  from 1 have 2: "map_option out (run 10 (envelopeStream 100 ending 10)
       [Recv (envelopeUnit (typed ''END_OF_STREAM'')), Send])
     = Some [envelopeUnit (typed ''END_OF_STREAM'')] \<and>
   map_option status (run 10 (envelopeStream 100 ending 10)
       [Recv (envelopeUnit (typed ''END_OF_STREAM'')), Send]) = Some Returned \<and>
   map_option decoder (run 10 (envelopeStream 100 ending 10)
       [Recv (envelopeUnit (typed ''END_OF_STREAM'')), Send]) = Some [Decoded (typed ''DATA'')] \<and>
   map_option bodyClosed (run 10 (envelopeStream 100 ending 10)
       [Recv (envelopeUnit (typed ''END_OF_STREAM'')), Send]) = Some True"
    by (simp add: returned_def envelopeStream_def)
  from h 2 show ?thesis by blast
qed

section \<open>The supervisor: factory errors and the delay\<close>

text \<open>
  C4. (The variant that passes the parent context.) When a call of the factory returns
  an error \<open>err\<close> and the caller takes the unit offered, exactly one unit has been
  added to \<open>out\<close>, with \<open>Envelope\<close> nil and \<open>Err\<close> the error
  \<open>"get stream: " + err.Error()\<close>, and the goroutine is in its wait for the delay;
  on every schedule that continues after the error, as long as the factory has not been
  called again the units added are none or that single one. On every schedule, any two
  successive calls of the factory are at least the delay apart.
\<close>

theorem factory_error_forwarded:
  "(phase s = Calling \<longrightarrow>
      runWith (supervise delay) s [GotError err, OutTaken] =
        Some (s\<lparr>phase := Delaying (time s + sint delay),
                outR := outR s @ [errorUnit (ErrorString (''get stream: '' @ Error err))],
                returns := Suc (returns s)\<rparr>)) \<and>
   (phase s = Calling \<and> runWith (supervise delay) s (GotError err # gs) = Some s' \<and>
    attempts s' = attempts s \<longrightarrow>
      outR s' = outR s \<or>
      outR s' = outR s @ [errorUnit (ErrorString (''get stream: '' @ Error err))]) \<and>
   (runWith (supervise delay) (reconnectStream t0) gs' = Some s'' \<longrightarrow>
      spaced (sint delay) (attempts s''))"
proof (intro conjI impI)
  assume "phase s = Calling"
  then show "runWith (supervise delay) s [GotError err, OutTaken] =
        Some (s\<lparr>phase := Delaying (time s + sint delay),
                outR := outR s @ [errorUnit (ErrorString (''get stream: '' @ Error err))],
                returns := Suc (returns s)\<rparr>)"
    by (simp add: leave_def errorUnit_def Errorf_def)
next
  assume a: "phase s = Calling \<and> runWith (supervise delay) s (GotError err # gs) = Some s' \<and>
    attempts s' = attempts s"
  let ?u = "\<lparr>Envelope = None, Err = Some (Errorf ''get stream'' err)\<rparr>"
  from a have r: "runWith (supervise delay) (s\<lparr>phase := Failing err\<rparr>) gs = Some s'" by auto
  have "settling err (attempts s) (outR s) ?u (s\<lparr>phase := Failing err\<rparr>)"
    by (simp add: settling_def)
  from settling_run [OF this r] have "settling err (attempts s) (outR s) ?u s'" by simp
  with a have "outR s' = outR s \<or> outR s' = outR s @ [?u]"
    by (auto simp: settling_def)
  then show "outR s' = outR s \<or>
      outR s' = outR s @ [errorUnit (ErrorString (''get stream: '' @ Error err))]"
    by (simp add: errorUnit_def Errorf_def)
next
  assume "runWith (supervise delay) (reconnectStream t0) gs' = Some s''"
  from orderly_run [OF orderly_init this] show "spaced (sint delay) (attempts s'')"
    by (simp add: orderly_def)
qed

theorem factory_error_forwarded_witness:
  "phase (reconnectStream 100) = Calling \<and>
   map_option outR (runWith (supervise 5) (reconnectStream 100)
       [GotError (ErrorString ''nope''), OutTaken])
     = Some [errorUnit (ErrorString ''get stream: nope'')] \<and>
   map_option phase (runWith (supervise 5) (reconnectStream 100)
       [GotError (ErrorString ''nope''), OutTaken]) = Some (Delaying 105) \<and>
   runWith (supervise 5) (reconnectStream 100) [GotError (ErrorString ''nope''), OutTaken, Timer]
     = None \<and>
   runWith (supervise 5) (reconnectStream 100) retries \<noteq> None \<and>
   attempts (the (runWith (supervise 5) (reconnectStream 100) retries)) = [105, 100] \<and>
   spaced (sint (5 :: Duration)) (attempts (the (runWith (supervise 5) (reconnectStream 100) retries)))"
proof -
  have h: "phase (reconnectStream 100) = Calling" by (simp add: reconnectStream_def)
  note t = factory_error_forwarded [of "reconnectStream 100" 5 "ErrorString ''nope''" "[]"
      "reconnectStream 100" 100 retries "the (runWith (supervise 5) (reconnectStream 100) retries)"]
  from t h have 1: "runWith (supervise 5) (reconnectStream 100)
       [GotError (ErrorString ''nope''), OutTaken] =
        Some ((reconnectStream 100)\<lparr>phase := Delaying (time (reconnectStream 100) + sint (5 :: Duration)),
                outR := outR (reconnectStream 100)
                  @ [errorUnit (ErrorString (''get stream: '' @ Error (ErrorString ''nope'')))],
                returns := Suc (returns (reconnectStream 100))\<rparr>)"
    by blast
  from 1 have 2: "map_option outR (runWith (supervise 5) (reconnectStream 100)
       [GotError (ErrorString ''nope''), OutTaken])
     = Some [errorUnit (ErrorString ''get stream: nope'')] \<and>
   map_option phase (runWith (supervise 5) (reconnectStream 100)
       [GotError (ErrorString ''nope''), OutTaken]) = Some (Delaying 105)"
    by (simp add: reconnectStream_def)
  have 3: "runWith (supervise 5) (reconnectStream 100)
      [GotError (ErrorString ''nope''), OutTaken, Timer] = None"
    by (simp add: sup_defs)
  have 4: "runWith (supervise 5) (reconnectStream 100) retries
     = Some (the (runWith (supervise 5) (reconnectStream 100) retries))"
    by (simp add: sup_defs)
  from t 4 have 5: "spaced (sint (5 :: Duration))
      (attempts (the (runWith (supervise 5) (reconnectStream 100) retries)))"
    by blast
  have 6: "runWith (supervise 5) (reconnectStream 100) retries \<noteq> None \<and>
   attempts (the (runWith (supervise 5) (reconnectStream 100) retries)) = [105, 100]"
    by (simp add: sup_defs)
  from h 2 3 5 6 show ?thesis by blast
qed

section \<open>Exactly one field of a unit is set\<close>

text \<open>
  C7. Every unit the decoder offers has exactly one of \<open>Envelope\<close> and \<open>Err\<close>
  set. On every schedule, every unit the envelope stream has sent on \<open>out\<close> has
  exactly one of them set (and the nil dereference of the send case is never reached).
  On every schedule on which the channels of the factory deliver such units, as the
  channel of an envelope stream does, every unit either variant of the supervisor has
  sent on \<open>out\<close> has exactly one of them set.
\<close>

theorem units_exactly_one:
  "exactlyOne (fst (decodeEnvelopes d)) \<and>
   (run T (envelopeStream t0 body T) evs = Some s \<longrightarrow>
      list_all exactlyOne (out s) \<and> status s \<noteq> Panicked) \<and>
   (wellFed gs \<and> runWith (supervise delay) (reconnectStream t1) gs = Some r \<longrightarrow>
      list_all exactlyOne (outR r)) \<and>
   (wellFed gs \<and> runWith (superviseSub delay) (reconnectStream t1) gs = Some r' \<longrightarrow>
      list_all exactlyOne (outR r'))"
proof (intro conjI impI)
  show "exactlyOne (fst (decodeEnvelopes d))" by (rule decodeEnvelopes_exactlyOne)
next
  assume "run T (envelopeStream t0 body T) evs = Some s"
  from tidy_run [OF tidy_init this] show "list_all exactlyOne (out s)" "status s \<noteq> Panicked"
    by (simp_all add: tidy_def)
next
  assume "wellFed gs \<and> runWith (supervise delay) (reconnectStream t1) gs = Some r"
  with sound_run [OF sound_init, of delay t1 gs r] show "list_all exactlyOne (outR r)"
    by (simp add: sound_def)
next
  assume "wellFed gs \<and> runWith (superviseSub delay) (reconnectStream t1) gs = Some r'"
  with sound_runSub [OF sound_init, of delay t1 gs r'] show "list_all exactlyOne (outR r')"
    by (simp add: sound_def)
qed

theorem units_exactly_one_witness:
  "exactlyOne (fst (decodeEnvelopes garbled)) \<and>
   run 10 (envelopeStream 100 feed 10) pings \<noteq> None \<and>
   list_all exactlyOne (out (the (run 10 (envelopeStream 100 feed 10) pings))) \<and>
   length (out (the (run 10 (envelopeStream 100 feed 10) pings))) = 4 \<and>
   wellFed epochs \<and>
   runWith (supervise 5) (reconnectStream 100) epochs \<noteq> None \<and>
   list_all exactlyOne (outR (the (runWith (supervise 5) (reconnectStream 100) epochs))) \<and>
   length (outR (the (runWith (supervise 5) (reconnectStream 100) epochs))) = 2 \<and>
   runWith (superviseSub 5) (reconnectStream 100) retries \<noteq> None \<and>
   list_all exactlyOne (outR (the (runWith (superviseSub 5) (reconnectStream 100) retries)))"
proof -
  note t = units_exactly_one [of garbled 10 100 feed pings
      "the (run 10 (envelopeStream 100 feed 10) pings)" epochs 5 100
      "the (runWith (supervise 5) (reconnectStream 100) epochs)"]
  note t' = units_exactly_one [of garbled 10 100 feed pings
      "the (run 10 (envelopeStream 100 feed 10) pings)" retries 5 100 _
      "the (runWith (superviseSub 5) (reconnectStream 100) retries)"]
  have a: "run 10 (envelopeStream 100 feed 10) pings
      = Some (the (run 10 (envelopeStream 100 feed 10) pings))"
    by (simp add: ev_defs)
  have b: "wellFed epochs \<and> runWith (supervise 5) (reconnectStream 100) epochs
      = Some (the (runWith (supervise 5) (reconnectStream 100) epochs))"
    by (simp add: sup_defs exactlyOne_def)
  have c: "wellFed retries \<and> runWith (superviseSub 5) (reconnectStream 100) retries
      = Some (the (runWith (superviseSub 5) (reconnectStream 100) retries))"
    by (simp add: sup_defs)
  from t have 1: "exactlyOne (fst (decodeEnvelopes garbled))" by blast
  from t a have 2: "list_all exactlyOne (out (the (run 10 (envelopeStream 100 feed 10) pings)))"
    by blast
  from t b have 3:
    "list_all exactlyOne (outR (the (runWith (supervise 5) (reconnectStream 100) epochs)))"
    by blast
  from t' c have 4:
    "list_all exactlyOne (outR (the (runWith (superviseSub 5) (reconnectStream 100) retries)))"
    by blast
  have 5: "run 10 (envelopeStream 100 feed 10) pings \<noteq> None \<and>
     length (out (the (run 10 (envelopeStream 100 feed 10) pings))) = 4"
    by (simp add: ev_defs)
  have 6: "wellFed epochs \<and> runWith (supervise 5) (reconnectStream 100) epochs \<noteq> None \<and>
     length (outR (the (runWith (supervise 5) (reconnectStream 100) epochs))) = 2"
    by (simp add: sup_defs exactlyOne_def)
  have 7: "runWith (superviseSub 5) (reconnectStream 100) retries \<noteq> None"
    by (simp add: sup_defs)
  from 1 2 3 4 5 6 7 show ?thesis by blast
qed

section \<open>One connection at a time\<close>



section \<open>The two variants of the supervisor\<close>

text \<open>
  C10, as stated, fails. With a delay of 5 ns, let the factory return a channel that is
  closed at once. The variant with the sub-context has then called the factory a second
  time, at the same instant as the first, while the variant that passes the parent
  context waits for its timer: the two do not call the factory at the same points, and
  the first does not wait the delay after the close of an active source.
\<close>

theorem variants_differ_on_close:
  "map_option attempts (runWith (superviseSub 5) (reconnectStream 100) [GotStream, InClosed])
     = Some [100, 100] \<and>
   map_option phase (runWith (superviseSub 5) (reconnectStream 100) [GotStream, InClosed])
     = Some Calling \<and>
   map_option attempts (runWith (supervise 5) (reconnectStream 100) [GotStream, InClosed])
     = Some [100] \<and>
   map_option phase (runWith (supervise 5) (reconnectStream 100) [GotStream, InClosed])
     = Some (Delaying 105) \<and>
   \<not> spaced (sint (5 :: Duration)) [100, 100]"
  by (simp add: reconnectStream_def leave_def forward_def connect_def leaveSub_def)

text \<open>
  C10, amended. On every schedule without cancellation that the variant with the
  sub-context takes, the variant that passes the parent context takes the same schedule
  with a wait of the delay put after every close of an active source, and then has sent
  the same units and called the factory as many times. After an error of the factory
  both variants wait the delay. After the close of an active source the variant with the
  sub-context calls the factory again at once; only the variant that passes the parent
  context waits the delay.
\<close>

theorem variants_agree_up_to_delay:
  "(uncancelled gs \<and> runWith (superviseSub delay) (reconnectStream t0) gs = Some s \<longrightarrow>
      runWith (supervise delay) (reconnectStream t0) (delayed delay gs) \<noteq> None \<and>
      outR (the (runWith (supervise delay) (reconnectStream t0) (delayed delay gs))) = outR s \<and>
      length (attempts (the (runWith (supervise delay) (reconnectStream t0) (delayed delay gs))))
        = length (attempts s)) \<and>
   (phase s1 = Calling \<longrightarrow>
      map_option phase (runWith (superviseSub delay) s1 [GotError err, OutTaken])
        = Some (Delaying (time s1 + sint delay)) \<and>
      map_option phase (runWith (supervise delay) s1 [GotError err, OutTaken])
        = Some (Delaying (time s1 + sint delay))) \<and>
   (phase s2 = Streaming \<and> \<not> envelopeReadyR s2 \<and> openR s2 \<longrightarrow>
      map_option phase (superviseSub delay s2 InClosed) = Some Calling \<and>
      map_option phase (supervise delay s2 InClosed) = Some (Delaying (time s2 + sint delay)))"
proof (intro conjI impI)
  assume a: "uncancelled gs \<and> runWith (superviseSub delay) (reconnectStream t0) gs = Some s"
  from matches_run [OF matches_init, of gs delay t0 s] a obtain sn
    where sn: "runWith (supervise delay) (reconnectStream t0) (delayed delay gs) = Some sn"
      and m: "matches s sn"
    by blast
  from sn show "runWith (supervise delay) (reconnectStream t0) (delayed delay gs) \<noteq> None"
    by simp
  from sn m show
    "outR (the (runWith (supervise delay) (reconnectStream t0) (delayed delay gs))) = outR s"
    by (simp add: matches_def)
  from sn m show
    "length (attempts (the (runWith (supervise delay) (reconnectStream t0) (delayed delay gs))))
        = length (attempts s)"
    by (simp add: matches_def)
next
  assume "phase s1 = Calling"
  then show "map_option phase (runWith (superviseSub delay) s1 [GotError err, OutTaken])
        = Some (Delaying (time s1 + sint delay))"
    and "map_option phase (runWith (supervise delay) s1 [GotError err, OutTaken])
        = Some (Delaying (time s1 + sint delay))"
    by (simp_all add: leave_def)
next
  assume "phase s2 = Streaming \<and> \<not> envelopeReadyR s2 \<and> openR s2"
  then show "map_option phase (superviseSub delay s2 InClosed) = Some Calling"
    and "map_option phase (supervise delay s2 InClosed) = Some (Delaying (time s2 + sint delay))"
    by (simp_all add: leave_def forward_def connect_def leaveSub_def)
qed

theorem variants_agree_up_to_delay_witness:
  "uncancelled epochsSub \<and>
   runWith (superviseSub 5) (reconnectStream 100) epochsSub \<noteq> None \<and>
   delayed 5 epochsSub = epochs \<and>
   runWith (supervise 5) (reconnectStream 100) epochs \<noteq> None \<and>
   outR (the (runWith (supervise 5) (reconnectStream 100) epochs))
     = outR (the (runWith (superviseSub 5) (reconnectStream 100) epochsSub)) \<and>
   outR (the (runWith (superviseSub 5) (reconnectStream 100) epochsSub))
     = [envelopeUnit (typed ''1''), errorUnit (ErrorString ''get stream: nope'')] \<and>
   attempts (the (runWith (superviseSub 5) (reconnectStream 100) epochsSub)) = [100, 100] \<and>
   attempts (the (runWith (supervise 5) (reconnectStream 100) epochs)) = [105, 100] \<and>
   phase (reconnectStream 100) = Calling \<and>
   map_option phase (runWith (superviseSub 5) (reconnectStream 100)
       [GotError (ErrorString ''nope''), OutTaken]) = Some (Delaying 105) \<and>
   phase (the (supervise 5 (reconnectStream 100) GotStream)) = Streaming \<and>
   map_option phase (superviseSub 5 (the (supervise 5 (reconnectStream 100) GotStream)) InClosed)
     = Some Calling \<and>
   map_option phase (supervise 5 (the (supervise 5 (reconnectStream 100) GotStream)) InClosed)
     = Some (Delaying 105)"
proof -
  note t = variants_agree_up_to_delay [of epochsSub 5 100
      "the (runWith (superviseSub 5) (reconnectStream 100) epochsSub)"
      "reconnectStream 100" "ErrorString ''nope''"
      "the (supervise 5 (reconnectStream 100) GotStream)"]
  have d: "delayed 5 epochsSub = epochs"
    by (simp add: epochsSub_def epochs_def)
  have a: "uncancelled epochsSub \<and>
     runWith (superviseSub 5) (reconnectStream 100) epochsSub
       = Some (the (runWith (superviseSub 5) (reconnectStream 100) epochsSub))"
    by (simp add: epochsSub_def sup_defs)
  have b: "phase (reconnectStream 100) = Calling" by (simp add: reconnectStream_def)
  have c: "phase (the (supervise 5 (reconnectStream 100) GotStream)) = Streaming \<and>
     \<not> envelopeReadyR (the (supervise 5 (reconnectStream 100) GotStream)) \<and>
     openR (the (supervise 5 (reconnectStream 100) GotStream))"
    by (simp add: reconnectStream_def)
  from t a have 1: "runWith (supervise 5) (reconnectStream 100) (delayed 5 epochsSub) \<noteq> None \<and>
      outR (the (runWith (supervise 5) (reconnectStream 100) (delayed 5 epochsSub)))
        = outR (the (runWith (superviseSub 5) (reconnectStream 100) epochsSub))"
    by blast
  from t b have 2: "map_option phase (runWith (superviseSub 5) (reconnectStream 100)
       [GotError (ErrorString ''nope''), OutTaken])
        = Some (Delaying (time (reconnectStream 100) + sint (5 :: Duration)))"
    by blast
  from t c have 3:
    "map_option phase (superviseSub 5 (the (supervise 5 (reconnectStream 100) GotStream)) InClosed)
       = Some Calling \<and>
     map_option phase (supervise 5 (the (supervise 5 (reconnectStream 100) GotStream)) InClosed)
       = Some (Delaying (time (the (supervise 5 (reconnectStream 100) GotStream))
                         + sint (5 :: Duration)))"
    by blast
  have 4: "runWith (superviseSub 5) (reconnectStream 100) epochsSub \<noteq> None \<and>
     outR (the (runWith (superviseSub 5) (reconnectStream 100) epochsSub))
       = [envelopeUnit (typed ''1''), errorUnit (ErrorString ''get stream: nope'')] \<and>
     attempts (the (runWith (superviseSub 5) (reconnectStream 100) epochsSub)) = [100, 100] \<and>
     attempts (the (runWith (supervise 5) (reconnectStream 100) epochs)) = [105, 100]"
    by (simp add: epochsSub_def sup_defs)
  from 2 have p2: "map_option phase (runWith (superviseSub 5) (reconnectStream 100)
       [GotError (ErrorString ''nope''), OutTaken]) = Some (Delaying 105)"
    by (simp add: reconnectStream_def)
  from 3 have p3:
    "map_option phase (superviseSub 5 (the (supervise 5 (reconnectStream 100) GotStream)) InClosed)
       = Some Calling \<and>
     map_option phase (supervise 5 (the (supervise 5 (reconnectStream 100) GotStream)) InClosed)
       = Some (Delaying 105)"
    by (simp add: reconnectStream_def)
  from 1 d have p1: "runWith (supervise 5) (reconnectStream 100) epochs \<noteq> None \<and>
      outR (the (runWith (supervise 5) (reconnectStream 100) epochs))
        = outR (the (runWith (superviseSub 5) (reconnectStream 100) epochsSub))"
    by simp
  from a d p1 4 b p2 c p3 show ?thesis by blast
qed


section \<open>Defaults of the receive options\<close>

text \<open>
  C9. When the ping timeout of the request is not specified (its value is not positive),
  \<open>Receive\<close> starts its envelope streams with a timeout of 90 seconds. When the
  reconnection delay is not specified, \<open>Receive\<close> runs its supervisor with a delay
  between 5 and 10 seconds inclusive (it is 5 seconds).
\<close>

theorem receive_defaults:
  "(\<not> 0 <s PingTimeout r \<longrightarrow>
      sint (pingTimeout r) = 90 * 1000000000 \<and>
      ReceiveStream r t0 body = envelopeStream t0 body (90 * Second)) \<and>
   (\<not> 0 <s ReconnectionDelay r \<longrightarrow>
      5 * 1000000000 \<le> sint (reconnectionDelay r) \<and>
      sint (reconnectionDelay r) \<le> 10 * 1000000000 \<and>
      Receive r = supervise (5 * Second))"
  by (simp add: pingTimeout_def reconnectionDelay_def Second_def ReceiveStream_def Receive_def)

theorem receive_defaults_witness:
  "\<not> 0 <s PingTimeout emptyRequest \<and>
   sint (pingTimeout emptyRequest) = 90 * 1000000000 \<and>
   deadlineCh (ReceiveStream emptyRequest 100 []) = 100 + 90 * 1000000000 \<and>
   \<not> 0 <s ReconnectionDelay emptyRequest \<and>
   5 * 1000000000 \<le> sint (reconnectionDelay emptyRequest) \<and>
   sint (reconnectionDelay emptyRequest) \<le> 10 * 1000000000 \<and>
   map_option phase
     (runWith (Receive emptyRequest) (reconnectStream 100) [GotError (ErrorString ''nope''), OutTaken])
     = Some (Delaying (100 + 5 * 1000000000))"
proof -
  have h: "\<not> 0 <s PingTimeout emptyRequest \<and> \<not> 0 <s ReconnectionDelay emptyRequest"
    by (simp add: emptyRequest_def)
  note t = receive_defaults [of emptyRequest 100 "[]"]
  from t h have 1: "sint (pingTimeout emptyRequest) = 90 * 1000000000 \<and>
      ReceiveStream emptyRequest 100 [] = envelopeStream 100 [] (90 * Second)"
    by blast
  from t h have 2: "5 * 1000000000 \<le> sint (reconnectionDelay emptyRequest) \<and>
      sint (reconnectionDelay emptyRequest) \<le> 10 * 1000000000 \<and>
      Receive emptyRequest = supervise (5 * Second)"
    by blast
  from 1 have 3: "deadlineCh (ReceiveStream emptyRequest 100 []) = 100 + 90 * 1000000000"
    by (simp add: envelopeStream_def Second_def)
  from 2 have 4: "map_option phase
     (runWith (Receive emptyRequest) (reconnectStream 100) [GotError (ErrorString ''nope''), OutTaken])
     = Some (Delaying (100 + 5 * 1000000000))"
    by (simp add: reconnectStream_def leave_def Second_def)
  from h 1 2 3 4 show ?thesis by blast
qed

end
